theory Spec2Isabelle
  imports Complex_Main "HOL-Library.Log_Nat"
begin

section \<open>The benchmark comparison script \<open>scripts/compare_perf.py\<close>\<close>

text \<open>
  The script reads four timing files, keeps the faster of two samples for every
  benchmark, compares the latest timings against the baseline ones, prints a
  report, posts a pull-request comment when something is worth reporting and
  finally fails by assertion on a regression.

  Conventions of the model.
  \<^item> A Python \<open>float\<close> is an IEEE 754 binary64 number.  The model keeps a finite
    float as the \<open>real\<close> number it denotes and rounds the exact result of every
    arithmetic operation to the nearest binary64 number, ties to even, as the
    hardware does.  Comparisons, \<open>min\<close>, \<open>max\<close> and negation are exact on floats
    and are those of the reals.  The sign of a zero, the infinities and NaN are not
    represented: a result beyond the largest binary64 number stays finite in the
    model.  Division of a float by zero raises \<open>ZeroDivisionError\<close> in Python and
    is a branch of the model.
  \<^item> Every exception is a value of type \<open>error\<close>; a computation returns the events
    it has performed so far together with either an error or its result.
  \<^item> Printed lines and comment messages are kept structured: one constructor per
    format string of the source, carrying the formatted values in order.
  \<^item> Everything outside the script (\<open>Path\<close>, the file system, the builtin \<open>float\<close>,
    the event payload, the HTTP endpoint) is a field of the record \<open>world\<close>.
\<close>

subsection \<open>Float arithmetic\<close>

text \<open>\<open>floor_log2 x\<close> is the exponent \<open>e\<close> with \<open>2 ^ e \<le> x < 2 ^ (e + 1)\<close>, for
  positive \<open>x\<close>; \<open>bitlen k\<close> is the number of binary digits of \<open>k\<close>.\<close>

definition floor_log2 :: "real \<Rightarrow> int" where
  "floor_log2 x = (if 1 \<le> x then bitlen \<lfloor>x\<rfloor> - 1 else - bitlen (\<lceil>1 / x\<rceil> - 1))"

definition pow2 :: "int \<Rightarrow> real" where
  "pow2 k = (if 0 \<le> k then 2 ^ nat k else 1 / 2 ^ nat (- k))"

definition round_half_even :: "real \<Rightarrow> int" where
  "round_half_even y =
     (let f = \<lfloor>y\<rfloor>; d = y - of_int f
      in if d < 1 / 2 then f else if 1 / 2 < d then f + 1 else if even f then f else f + 1)"

text \<open>Rounding to binary64: 53 significant bits for a number of magnitude at least
  \<open>2 ^ (- 1022)\<close>, multiples of \<open>2 ^ (- 1074)\<close> below that.\<close>

definition rnd :: "real \<Rightarrow> real" where
  "rnd x =
     (if x = 0 then 0
      else let e = max (floor_log2 \<bar>x\<bar>) (- 1022);
               q = pow2 (e - 52)
           in sgn x * of_int (round_half_even (\<bar>x\<bar> / q)) * q)"

text \<open>A decimal literal of the source (\<open>1.2\<close>, \<open>1.06\<close>) and a decimal token given to
  \<open>float\<close> denote the nearest float; an \<open>int\<close> operand of a float operation is
  converted to the nearest float first; \<open>+\<close>, \<open>-\<close>, \<open>*\<close> and \<open>/\<close> on floats round
  their exact result.\<close>

definition lit :: "real \<Rightarrow> real" where
  "lit x = rnd x"

definition float_of_nat :: "nat \<Rightarrow> real" where
  "float_of_nat k = rnd (real k)"

definition fadd :: "real \<Rightarrow> real \<Rightarrow> real" where
  "fadd a b = rnd (a + b)"

definition fsub :: "real \<Rightarrow> real \<Rightarrow> real" where
  "fsub a b = rnd (a - b)"

definition fmul :: "real \<Rightarrow> real \<Rightarrow> real" where
  "fmul a b = rnd (a * b)"

definition fdiv :: "real \<Rightarrow> real \<Rightarrow> real" where
  "fdiv a b = rnd (a / b)"

subsection \<open>Errors, formatted values, messages, output\<close>

datatype error =
    IndexError            \<comment> \<open>\<open>sys.argv[k]\<close> out of range\<close>
  | OSError               \<comment> \<open>\<open>Path.read_text\<close> failed\<close>
  | ValueError            \<comment> \<open>\<open>float(t)\<close> on a token that is no number\<close>
  | ZeroDivisionError     \<comment> \<open>float division by zero\<close>
  | NameError             \<comment> \<open>read of a local variable that was never bound\<close>
  | EventError            \<comment> \<open>the event payload could not be read or lacks the keys\<close>
  | RequestError          \<comment> \<open>\<open>session.post\<close> raised\<close>
  | HTTPError             \<comment> \<open>\<open>raise_for_status\<close> on a 4xx or 5xx answer\<close>
  | AssertionError        \<comment> \<open>one of the two final \<open>assert\<close> statements\<close>

text \<open>A number as a format string renders it: \<open>Fixed k x\<close> is \<open>{x:.kf}\<close>,
  \<open>Repr x\<close> is \<open>{x}\<close>.\<close>

datatype fnum = Fixed nat real | Repr real

text \<open>The text \<open>mean_perc_str\<close>: \<open>Slower p\<close> is \<open>"{p} slower"\<close>, \<open>Faster p\<close> is
  \<open>"{p} faster"\<close>.\<close>

datatype mean_perc_str = Slower fnum | Faster fnum

text \<open>The entries of the list \<open>messages\<close>, one constructor per format string:
  \<^item> \<open>TooSlow i p\<close>: \<open>"(no entry sign) Benchmark #{i} is too slow: +{p}%"\<close>
  \<^item> \<open>Slowdown i p\<close>: \<open>"(warning sign)Potential non-blocking slowdown in benchmark #{i}: +{p}%"\<close>
  \<^item> \<open>Speedup i p\<close>: \<open>"(fire) Potential speedup in benchmark #{i}: {p}%"\<close>
  \<^item> \<open>Summary k s\<close>: \<open>"{k} benchmarks, {s} on average."\<close>
  \<^item> \<open>Footer\<close>: \<open>"Deviations greater than 10% from the baseline are reported. See run
    output for more details."\<close>
  The comment text \<open>msg\<close> is the list joined by blank lines; the model keeps the list.\<close>

datatype message =
    TooSlow nat fnum
  | Slowdown nat fnum
  | Speedup nat fnum
  | Summary nat mean_perc_str
  | Footer

text \<open>The lines the script prints:
  \<^item> \<open>Reading f\<close>: \<open>"Reading {f}"\<close>
  \<^item> \<open>RecordLine i r b l\<close>: \<open>"[{i}] {r}x Baseline: {b}, Latest: {l}"\<close>
  \<^item> \<open>AverageLine a m x\<close>: \<open>"Average: {a}x, Min: {m}x, Max: {x}x"\<close>
  \<^item> \<open>TotalLine b l\<close>: \<open>"Total Baseline: {b} s, Latest: {l} s"\<close>
  \<^item> \<open>SendingLine msg\<close>: \<open>"Sending warnings and errors as a PR comment:\n{msg}"\<close>
  \<^item> \<open>MessageLine msg\<close>: the \<open>print(message)\<close> of \<open>send_comment\<close>\<close>

datatype line =
    Reading string
  | RecordLine nat fnum fnum fnum
  | AverageLine fnum fnum fnum
  | TotalLine fnum fnum
  | SendingLine "message list"
  | MessageLine "message list"

record request =
  url :: string
  authorization :: string
  accept :: string
  body :: "message list"
  commit_id :: string

datatype event = Print line | HttpPost request

record world =
  path :: "string \<Rightarrow> string"
    \<comment> \<open>\<open>Path(arg)\<close>, kept as the text \<open>str(Path(arg))\<close>\<close>
  read_text :: "string \<Rightarrow> string option"
    \<comment> \<open>\<open>filename.read_text()\<close>; \<open>None\<close> where it raises\<close>
  float_of :: "string \<Rightarrow> real option"
    \<comment> \<open>the builtin \<open>float\<close> on one token; \<open>None\<close> where it raises\<close>
  event_sha :: "string option"
    \<comment> \<open>the \<open>["pull_request"]["head"]["sha"]\<close> entry of the JSON file named by
        \<open>GITHUB_EVENT_PATH\<close>; \<open>None\<close> where reading it raises\<close>
  post :: "request \<Rightarrow> nat option"
    \<comment> \<open>\<open>session.post\<close>: the status code of the answer; \<open>None\<close> where it raises\<close>

type_synonym 'a io = "event list \<times> (error + 'a)"

definition bind_io :: "'a io \<Rightarrow> ('a \<Rightarrow> 'b io) \<Rightarrow> 'b io" where
  "bind_io m f =
     (case m of
        (t, Inl e) \<Rightarrow> (t, Inl e)
      | (t, Inr x) \<Rightarrow> (case f x of (t', r) \<Rightarrow> (t @ t', r)))"

definition return_io :: "'a \<Rightarrow> 'a io" where
  "return_io x = ([], Inr x)"

definition raise_io :: "error \<Rightarrow> 'a io" where
  "raise_io e = ([], Inl e)"

definition print_io :: "line \<Rightarrow> unit io" where
  "print_io l = ([Print l], Inr ())"

definition py_assert :: "bool \<Rightarrow> unit io" where
  "py_assert c = (if c then return_io () else raise_io AssertionError)"

subsection \<open>\<open>send_comment\<close>\<close>

definition send_comment :: "world \<Rightarrow> message list \<Rightarrow> string \<Rightarrow> string \<Rightarrow> unit io" where
  "send_comment w message github_token pull_request_number =
     (if pull_request_number = [] then return_io ()
      else
        case event_sha w of
          None \<Rightarrow> raise_io EventError
        | Some sha \<Rightarrow>
            let pr_comment_payload =
                  \<lparr> url = ''https://api.github.com/repos/returntocorp/semgrep/issues/''
                            @ pull_request_number @ ''/comments'',
                    authorization = ''Token '' @ github_token,
                    accept = ''application/vnd.github.comfort-fade-preview+json'',
                    body = message,
                    commit_id = sha \<rparr>
            in case post w pr_comment_payload of
                 None \<Rightarrow> ([HttpPost pr_comment_payload], Inl RequestError)
               | Some status \<Rightarrow>
                   ([HttpPost pr_comment_payload, Print (MessageLine message)],
                    (if 400 \<le> status \<and> status < 600 then Inl HTTPError else Inr ())))"

subsection \<open>\<open>read_timing\<close>\<close>

text \<open>\<open>str.split()\<close> without arguments cuts at runs of whitespace and yields no empty
  token.  A \<open>char\<close> stands for a code point below 256; the whitespace characters among
  these are the ones below (the Unicode spaces from U+1680 on have no \<open>char\<close>).\<close>

definition isspace :: "char \<Rightarrow> bool" where
  "isspace c = (c \<in> set [CHR 0x20, CHR 0x09, CHR 0x0A, CHR 0x0B, CHR 0x0C, CHR 0x0D,
                          CHR 0x1C, CHR 0x1D, CHR 0x1E, CHR 0x1F, CHR 0x85, CHR 0xA0])"

fun split_from :: "string \<Rightarrow> string \<Rightarrow> string list" where
  "split_from cur [] = (if cur = [] then [] else [cur])"
| "split_from cur (c # cs) =
     (if isspace c then (if cur = [] then split_from [] cs else cur # split_from [] cs)
      else split_from (cur @ [c]) cs)"

definition split_str :: "string \<Rightarrow> string list" where
  "split_str s = split_from [] s"

fun floats :: "world \<Rightarrow> string list \<Rightarrow> error + real list" where
  "floats w [] = Inr []"
| "floats w (t # ts) =
     (case float_of w t of
        None \<Rightarrow> Inl ValueError
      | Some x \<Rightarrow> (case floats w ts of Inl e \<Rightarrow> Inl e | Inr xs \<Rightarrow> Inr (x # xs)))"

definition read_timing :: "world \<Rightarrow> string \<Rightarrow> real list io" where
  "read_timing w filename =
     bind_io (print_io (Reading filename)) (\<lambda>_.
       case read_text w filename of
         None \<Rightarrow> raise_io OSError
       | Some txt \<Rightarrow> ([], floats w (split_str txt)))"

subsection \<open>\<open>main\<close>\<close>

text \<open>The builtins \<open>min\<close> and \<open>max\<close> on two arguments keep the first one unless the
  second is strictly smaller (larger).\<close>

definition py_min :: "real \<Rightarrow> real \<Rightarrow> real" where
  "py_min a b = (if b < a then b else a)"

definition py_max :: "real \<Rightarrow> real \<Rightarrow> real" where
  "py_max a b = (if b > a then b else a)"

text \<open>Lines 56 to 65: the two samples of a run are paired by \<open>zip\<close> and every pair is
  replaced by its faster time.\<close>

definition fastest :: "real list \<Rightarrow> real list \<Rightarrow> real list" where
  "fastest ts1 ts2 = map (\<lambda>(t1, t2). py_min t1 t2) (zip ts1 ts2)"

text \<open>The local variables of \<open>main\<close> that the loop updates.  \<open>rel_dur\<close> is bound by
  the first iteration only, hence optional.\<close>

record acc =
  n :: nat
  total_baseline :: real
  total_latest :: real
  total_rel_dur :: real
  min_rel_dur :: real
  max_rel_dur :: real
  messages :: "message list"
  errors :: nat
  rel_dur :: "real option"

definition init_acc :: acc where
  "init_acc =
     \<lparr> n = 0, total_baseline = 0, total_latest = 0, total_rel_dur = 0,
       min_rel_dur = 1, max_rel_dur = 1, messages = [], errors = 0, rel_dur = None \<rparr>"

text \<open>Lines 81 to 108: one iteration of the loop.\<close>

definition loop_body :: "acc \<Rightarrow> real \<times> real \<Rightarrow> acc io" where
  "loop_body a p =
     (case p of (baseline_time, latest_time) \<Rightarrow>
        let i = n a;
            a1 = a\<lparr> n := n a + 1,
                    total_baseline := fadd (total_baseline a) baseline_time,
                    total_latest := fadd (total_latest a) latest_time \<rparr>
        in if baseline_time = 0 then raise_io ZeroDivisionError
           else
             let r = fdiv latest_time baseline_time;
                 a2 = a1\<lparr> rel_dur := Some r,
                          total_rel_dur := fadd (total_rel_dur a1) r,
                          min_rel_dur := py_min (min_rel_dur a1) r,
                          max_rel_dur := py_max (max_rel_dur a1) r \<rparr>;
                 perc = fmul 100 (fsub r 1)
             in bind_io
                  (print_io (RecordLine i (Fixed 3 r) (Fixed 3 baseline_time)
                                          (Fixed 3 latest_time)))
                  (\<lambda>_. return_io
                     (if latest_time > fmul baseline_time (lit 1.2)
                         \<and> fsub latest_time baseline_time > 5.0
                      then a2\<lparr> errors := errors a2 + 1,
                                messages := messages a2 @ [TooSlow i (Fixed 1 perc)] \<rparr>
                      else if r > lit 1.1
                      then a2\<lparr> messages := messages a2 @ [Slowdown i (Fixed 1 perc)] \<rparr>
                      else if r < lit 0.9
                      then a2\<lparr> messages := messages a2 @ [Speedup i (Fixed 1 perc)] \<rparr>
                      else a2)))"

fun loop :: "acc \<Rightarrow> (real \<times> real) list \<Rightarrow> acc io" where
  "loop a [] = return_io a"
| "loop a (p # ps) = bind_io (loop_body a p) (\<lambda>a'. loop a' ps)"

text \<open>Line 110: the mean of the ratios; \<open>n\<close> is an \<open>int\<close> and \<open>total_rel_dur\<close> a
  \<open>float\<close>, so a zero \<open>n\<close> raises.\<close>

definition mean_of :: "acc \<Rightarrow> error + real" where
  "mean_of a =
     (if n a = 0 then Inl ZeroDivisionError
      else Inr (fdiv (total_rel_dur a) (float_of_nat (n a))))"

text \<open>Lines 111 to 115.\<close>

definition mean_perc_str_of :: "real \<Rightarrow> mean_perc_str" where
  "mean_perc_str_of mean_rel_dur =
     (let mean_perc = fmul 100 (fsub mean_rel_dur 1)
      in if mean_perc > 0 then Slower (Fixed 1 mean_perc) else Faster (Fixed 1 (- mean_perc)))"

text \<open>Lines 117 and 118: the two summary lines.\<close>

definition print_summary :: "acc \<Rightarrow> unit io" where
  "print_summary a =
     (case rel_dur a of
        None \<Rightarrow> raise_io NameError
      | Some r \<Rightarrow>
          bind_io (print_io (AverageLine (Fixed 3 r) (Fixed 3 r) (Fixed 3 r))) (\<lambda>_.
            print_io (TotalLine (Repr (total_baseline a)) (Repr (total_latest a)))))"

text \<open>Lines 121 to 133: the pull-request comment.\<close>

definition notify :: "world \<Rightarrow> acc \<Rightarrow> mean_perc_str \<Rightarrow> string \<Rightarrow> string \<Rightarrow> unit io" where
  "notify w a s github_token pull_request_number =
     (if messages a \<noteq> [] then
        let msg = messages a @ [Summary (n a) s, Footer]
        in bind_io (print_io (SendingLine msg)) (\<lambda>_.
             send_comment w msg github_token pull_request_number)
      else return_io ())"

text \<open>Lines 67 to 139: everything after the four files are read and reduced.\<close>

definition compare :: "world \<Rightarrow> real list \<Rightarrow> real list \<Rightarrow> string \<Rightarrow> string \<Rightarrow> unit io" where
  "compare w baseline_times latest_times github_token pull_request_number =
     bind_io (loop init_acc (zip baseline_times latest_times)) (\<lambda>a.
       case mean_of a of
         Inl e \<Rightarrow> raise_io e
       | Inr mean_rel_dur \<Rightarrow>
           bind_io (print_summary a) (\<lambda>_.
           bind_io (notify w a (mean_perc_str_of mean_rel_dur) github_token
                      pull_request_number) (\<lambda>_.
           bind_io (py_assert (errors a = 0)) (\<lambda>_.
             py_assert (mean_rel_dur < lit 1.06)))))"

definition main :: "world \<Rightarrow> string list \<Rightarrow> unit io" where
  "main w argv =
     (if length argv < 6 then raise_io IndexError
      else
        let baseline_timing_file_1 = path w (argv ! 1);
            baseline_timing_file_2 = path w (argv ! 2);
            latest_timing_file_1 = path w (argv ! 3);
            latest_timing_file_2 = path w (argv ! 4);
            github_token = argv ! 5;
            pull_request_number = (if length argv \<ge> 7 then argv ! 6 else [])
        in bind_io (read_timing w baseline_timing_file_1) (\<lambda>b1.
           bind_io (read_timing w baseline_timing_file_2) (\<lambda>b2.
           bind_io (read_timing w latest_timing_file_1) (\<lambda>l1.
           bind_io (read_timing w latest_timing_file_2) (\<lambda>l2.
             compare w (fastest b1 b2) (fastest l1 l2) github_token
               pull_request_number)))))"

subsection \<open>An example world\<close>

text \<open>A small file system whose paths print as they are given, the values of \<open>float\<close>
  on its tokens, an event payload and an endpoint that answers every request with the
  given status code.\<close>

definition example_world :: "nat \<Rightarrow> world" where
  "example_world status =
     \<lparr> path = (\<lambda>arg. arg),
       read_text = map_of
         [(''base_a'', ''10 10 10''), (''latest_a1'', ''8 12 11''),
          (''latest_a2'', ''9 12.5 11''),
          (''base_b'', ''100 1''), (''latest_b'', ''121 1.3''),
          (''base_g'', ''25.5''), (''latest_g'', ''30.6''),
          (''base_c'', ''10.0''), (''latest_c1'', ''9.0''), (''latest_c2'', ''11.0''),
          (''latest_c3'', ''8''),
          (''base_d'', ''100 100''), (''latest_d'', ''106.1 106.1''),
          (''base_e'', ''1 1 1''), (''latest_e'', ''1 1.09 1.09''),
          (''base_f'', ''0.1''), (''latest_f'', ''0.09''),
          (''base_z'', ''1 0 1''), (''latest_z'', ''1 10 1''),
          (''empty'', [])],
       float_of = map_of
         [(''10'', 10), (''8'', 8), (''12'', 12), (''11'', 11), (''9'', 9),
          (''12.5'', lit 12.5), (''100'', 100), (''1'', 1), (''0'', 0), (''121'', 121),
          (''1.3'', lit 1.3), (''25.5'', lit 25.5), (''30.6'', lit 30.6),
          (''10.0'', 10), (''9.0'', 9), (''11.0'', 11), (''106.1'', lit 106.1),
          (''1.09'', lit 1.09), (''0.1'', lit 0.1), (''0.09'', lit 0.09)],
       event_sha = Some ''c0ffee'',
       post = (\<lambda>_. Some status) \<rparr>"

section \<open>Properties\<close>

subsection \<open>Sequencing\<close>

lemma bind_io_Inl [simp]: "bind_io (t, Inl e) f = (t, Inl e)"
  by (simp add: bind_io_def)

lemma bind_io_Inr [simp]: "bind_io (t, Inr x) f = (t @ fst (f x), snd (f x))"
  by (simp add: bind_io_def split: prod.splits)

lemma bind_io_return [simp]: "bind_io (return_io x) f = f x"
  by (simp add: return_io_def)

lemma bind_io_raise [simp]: "bind_io (raise_io e) f = raise_io e"
  by (simp add: raise_io_def)

lemma bind_io_print [simp]: "bind_io (print_io l) f = (Print l # fst (f ()), snd (f ()))"
  by (simp add: print_io_def)

lemma snd_bind_io:
  "snd (bind_io m f) = (case snd m of Inl e \<Rightarrow> Inl e | Inr x \<Rightarrow> snd (f x))"
  by (cases m) (auto simp: bind_io_def split: sum.splits prod.splits)

lemma fst_bind_io:
  "fst (bind_io m f) = (case snd m of Inl e \<Rightarrow> fst m | Inr x \<Rightarrow> fst m @ fst (f x))"
  by (cases m) (auto simp: bind_io_def split: sum.splits prod.splits)

lemma bind_io_assoc: "bind_io (bind_io m f) g = bind_io m (\<lambda>x. bind_io (f x) g)"
  by (cases m) (auto simp: bind_io_def split: sum.splits prod.splits)

subsection \<open>The loop\<close>

lemma loop_append: "loop a (ps @ qs) = bind_io (loop a ps) (\<lambda>a'. loop a' qs)"
  by (induction ps arbitrary: a) (simp_all add: bind_io_assoc)

lemma loop_snoc: "loop a (ps @ [p]) = bind_io (loop a ps) (\<lambda>a'. loop_body a' p)"
proof -
  have "loop a' [p] = loop_body a' p" for a'
    by (cases "loop_body a' p" rule: prod.exhaust; cases "snd (loop_body a' p)")
       (auto simp: return_io_def)
  then show ?thesis by (simp add: loop_append)
qed

lemma loop_body_Inr:
  "snd (loop_body a (b, l)) = Inr a' \<longleftrightarrow>
     b \<noteq> 0 \<and>
     a' = (let r = fdiv l b;
               a2 = a\<lparr> n := n a + 1, total_baseline := fadd (total_baseline a) b,
                       total_latest := fadd (total_latest a) l, rel_dur := Some r,
                       total_rel_dur := fadd (total_rel_dur a) r,
                       min_rel_dur := py_min (min_rel_dur a) r,
                       max_rel_dur := py_max (max_rel_dur a) r \<rparr>
           in if l > fmul b (lit 1.2) \<and> fsub l b > 5.0
              then a2\<lparr> errors := errors a + 1,
                        messages := messages a @ [TooSlow (n a) (Fixed 1 (fmul 100 (fsub r 1)))] \<rparr>
              else if r > lit 1.1
              then a2\<lparr> messages := messages a @ [Slowdown (n a) (Fixed 1 (fmul 100 (fsub r 1)))] \<rparr>
              else if r < lit 0.9
              then a2\<lparr> messages := messages a @ [Speedup (n a) (Fixed 1 (fmul 100 (fsub r 1)))] \<rparr>
              else a2)"
  by (auto simp: loop_body_def Let_def raise_io_def return_io_def)

lemma loop_body_fst:
  "fst (loop_body a (b, l)) =
     (if b = 0 then [] else [Print (RecordLine (n a) (Fixed 3 (fdiv l b)) (Fixed 3 b) (Fixed 3 l))])"
  by (auto simp: loop_body_def Let_def raise_io_def return_io_def)

lemma loop_body_Inl:
  "snd (loop_body a (b, l)) = Inl e \<longleftrightarrow> b = 0 \<and> e = ZeroDivisionError"
  by (auto simp: loop_body_def Let_def raise_io_def return_io_def)


lemma loop_snoc_Inr:
  "snd (loop a (ps @ [p])) = Inr a'' \<longleftrightarrow>
     (\<exists>a'. snd (loop a ps) = Inr a' \<and> snd (loop_body a' p) = Inr a'')"
  by (simp add: loop_snoc snd_bind_io split: sum.splits)

lemma loop_Nil_Inr: "snd (loop a []) = Inr a' \<longleftrightarrow> a' = a"
  by (auto simp: return_io_def)

lemma loop_n: "snd (loop init_acc ps) = Inr a \<Longrightarrow> n a = length ps"
proof (induction ps arbitrary: a rule: rev_induct)
  case Nil
  then show ?case by (auto simp: return_io_def init_acc_def)
next
  case (snoc p ps)
  obtain b l where p: "p = (b, l)" by (cases p)
  from snoc.prems obtain a' where a': "snd (loop init_acc ps) = Inr a'"
    and step: "snd (loop_body a' (b, l)) = Inr a"
    unfolding p loop_snoc_Inr by blast
  from step show ?case using snoc.IH [OF a']
    by (auto simp: loop_body_Inr Let_def)
qed

lemma loop_nonzero: "snd (loop init_acc ps) = Inr a \<Longrightarrow> \<forall>p\<in>set ps. fst p \<noteq> 0"
proof (induction ps arbitrary: a rule: rev_induct)
  case Nil
  then show ?case by simp
next
  case (snoc p ps)
  obtain b l where p: "p = (b, l)" by (cases p)
  from snoc.prems obtain a' where a': "snd (loop init_acc ps) = Inr a'"
    and step: "snd (loop_body a' (b, l)) = Inr a"
    unfolding p loop_snoc_Inr by blast
  from step show ?case using snoc.IH [OF a'] p
    by (auto simp: loop_body_Inr Let_def)
qed

lemma loop_total: "\<forall>p\<in>set ps. fst p \<noteq> 0 \<Longrightarrow> \<exists>a'. snd (loop a ps) = Inr a'"
proof (induction ps arbitrary: a)
  case Nil
  then show ?case by (simp add: return_io_def)
next
  case (Cons p ps)
  obtain b l where p: "p = (b, l)" by (cases p)
  with Cons.prems have "b \<noteq> 0" by simp
  then obtain a1 where a1: "snd (loop_body a (b, l)) = Inr a1"
    by (simp add: loop_body_Inr)
  from Cons.IH [of a1] Cons.prems obtain a' where "snd (loop a1 ps) = Inr a'" by auto
  with a1 show ?case by (simp add: p snd_bind_io)
qed

lemma loop_error: "snd (loop a ps) = Inl e \<Longrightarrow> e = ZeroDivisionError \<and> (\<exists>p\<in>set ps. fst p = 0)"
proof (induction ps arbitrary: a)
  case Nil
  then show ?case by (simp add: return_io_def)
next
  case (Cons p ps)
  obtain b l where p: "p = (b, l)" by (cases p)
  show ?case
  proof (cases "snd (loop_body a (b, l))")
    case (Inl e')
    with Cons.prems show ?thesis by (auto simp: p snd_bind_io loop_body_Inl)
  next
    case (Inr a1)
    with Cons.prems have "snd (loop a1 ps) = Inl e" by (simp add: p snd_bind_io)
    from Cons.IH [OF this] show ?thesis by simp
  qed
qed

lemma loop_trace:
  "snd (loop init_acc ps) = Inr a \<Longrightarrow>
   fst (loop init_acc ps) =
     map (\<lambda>(i, b, l). Print (RecordLine i (Fixed 3 (fdiv l b)) (Fixed 3 b) (Fixed 3 l)))
       (enumerate 0 ps)"
proof (induction ps arbitrary: a rule: rev_induct)
  case Nil
  then show ?case by (simp add: return_io_def)
next
  case (snoc p ps)
  obtain b l where p: "p = (b, l)" by (cases p)
  from snoc.prems obtain a' where a': "snd (loop init_acc ps) = Inr a'"
    and step: "snd (loop_body a' (b, l)) = Inr a"
    unfolding p loop_snoc_Inr by blast
  from step have "b \<noteq> 0" by (simp add: loop_body_Inr)
  then show ?case using snoc.IH [OF a'] a' loop_n [OF a']
    by (simp add: p loop_snoc fst_bind_io loop_body_fst enumerate_append_eq)
qed

lemma loop_sums:
  "snd (loop init_acc ps) = Inr a \<Longrightarrow>
   total_baseline a = foldl fadd 0 (map fst ps) \<and>
   total_latest a = foldl fadd 0 (map snd ps) \<and>
   total_rel_dur a = foldl fadd 0 (map (\<lambda>(b, l). fdiv l b) ps) \<and>
   errors a = length (filter (\<lambda>(b, l). l > fmul b (lit 1.2) \<and> fsub l b > 5.0) ps) \<and>
   rel_dur a = (if ps = [] then None else Some (fdiv (snd (last ps)) (fst (last ps)))) \<and>
   length (messages a) \<le> length ps"
proof (induction ps arbitrary: a rule: rev_induct)
  case Nil
  then show ?case by (auto simp: return_io_def init_acc_def)
next
  case (snoc p ps)
  obtain b l where p: "p = (b, l)" by (cases p)
  from snoc.prems obtain a' where a': "snd (loop init_acc ps) = Inr a'"
    and step: "snd (loop_body a' (b, l)) = Inr a"
    unfolding p loop_snoc_Inr by blast
  from step show ?case using snoc.IH [OF a']
    by (auto simp: p loop_body_Inr Let_def)
qed



lemma loop_snoc_messages:
  assumes "snd (loop init_acc (ps @ [(b, l)])) = Inr a"
  obtains a' where "snd (loop init_acc ps) = Inr a'" and "b \<noteq> 0" and
    "messages a = messages a' @
       (if l > fmul b (lit 1.2) \<and> fsub l b > 5.0 then [TooSlow (length ps) (Fixed 1 (fmul 100 (fsub (fdiv l b) 1)))]
        else if fdiv l b > lit 1.1 then [Slowdown (length ps) (Fixed 1 (fmul 100 (fsub (fdiv l b) 1)))]
        else if fdiv l b < lit 0.9 then [Speedup (length ps) (Fixed 1 (fmul 100 (fsub (fdiv l b) 1)))]
        else [])"
proof -
  from assms obtain a' where a': "snd (loop init_acc ps) = Inr a'"
    and step: "snd (loop_body a' (b, l)) = Inr a"
    unfolding loop_snoc_Inr by blast
  from step have "b \<noteq> 0" by (simp add: loop_body_Inr)
  moreover from step have "messages a = messages a' @
       (if l > fmul b (lit 1.2) \<and> fsub l b > 5.0 then [TooSlow (length ps) (Fixed 1 (fmul 100 (fsub (fdiv l b) 1)))]
        else if fdiv l b > lit 1.1 then [Slowdown (length ps) (Fixed 1 (fmul 100 (fsub (fdiv l b) 1)))]
        else if fdiv l b < lit 0.9 then [Speedup (length ps) (Fixed 1 (fmul 100 (fsub (fdiv l b) 1)))]
        else [])"
    by (simp add: loop_body_Inr Let_def loop_n [OF a'])
  ultimately show thesis using a' that by blast
qed

lemma loop_too_slow:
  "snd (loop init_acc ps) = Inr a \<Longrightarrow>
   TooSlow i q \<in> set (messages a) \<longleftrightarrow>
      i < length ps \<and> snd (ps ! i) > fmul (fst (ps ! i)) (lit 1.2) \<and> fsub (snd (ps ! i)) (fst (ps ! i)) > 5.0 \<and>
      q = Fixed 1 (fmul 100 (fsub (fdiv (snd (ps ! i)) (fst (ps ! i))) 1))"
proof (induction ps arbitrary: a rule: rev_induct)
  case Nil
  then show ?case by (auto simp: return_io_def init_acc_def)
next
  case (snoc p ps)
  obtain b l where p: "p = (b, l)" by (cases p)
  from snoc.prems [unfolded p] obtain a' where a': "snd (loop init_acc ps) = Inr a'"
    and msgs: "messages a = messages a' @
       (if l > fmul b (lit 1.2) \<and> fsub l b > 5.0 then [TooSlow (length ps) (Fixed 1 (fmul 100 (fsub (fdiv l b) 1)))]
        else if fdiv l b > lit 1.1 then [Slowdown (length ps) (Fixed 1 (fmul 100 (fsub (fdiv l b) 1)))]
        else if fdiv l b < lit 0.9 then [Speedup (length ps) (Fixed 1 (fmul 100 (fsub (fdiv l b) 1)))]
        else [])"
    by (rule loop_snoc_messages)
  note IH = snoc.IH [OF a']
  consider "i < length ps" | "i = length ps" | "i > length ps" by linarith
  then show ?case
  proof cases
    case 1
    then show ?thesis unfolding msgs p using IH by (simp add: nth_append)
  next
    case 2
    then show ?thesis unfolding msgs p using IH by (auto simp: nth_append)
  next
    case 3
    then show ?thesis unfolding msgs p using IH by (simp add: nth_append)
  qed
qed

lemma loop_slowdown:
  "snd (loop init_acc ps) = Inr a \<Longrightarrow>
   Slowdown i q \<in> set (messages a) \<longleftrightarrow>
      i < length ps \<and> \<not> (snd (ps ! i) > fmul (fst (ps ! i)) (lit 1.2) \<and> fsub (snd (ps ! i)) (fst (ps ! i)) > 5.0) \<and>
      fdiv (snd (ps ! i)) (fst (ps ! i)) > lit 1.1 \<and>
      q = Fixed 1 (fmul 100 (fsub (fdiv (snd (ps ! i)) (fst (ps ! i))) 1))"
proof (induction ps arbitrary: a rule: rev_induct)
  case Nil
  then show ?case by (auto simp: return_io_def init_acc_def)
next
  case (snoc p ps)
  obtain b l where p: "p = (b, l)" by (cases p)
  from snoc.prems [unfolded p] obtain a' where a': "snd (loop init_acc ps) = Inr a'"
    and msgs: "messages a = messages a' @
       (if l > fmul b (lit 1.2) \<and> fsub l b > 5.0 then [TooSlow (length ps) (Fixed 1 (fmul 100 (fsub (fdiv l b) 1)))]
        else if fdiv l b > lit 1.1 then [Slowdown (length ps) (Fixed 1 (fmul 100 (fsub (fdiv l b) 1)))]
        else if fdiv l b < lit 0.9 then [Speedup (length ps) (Fixed 1 (fmul 100 (fsub (fdiv l b) 1)))]
        else [])"
    by (rule loop_snoc_messages)
  note IH = snoc.IH [OF a']
  consider "i < length ps" | "i = length ps" | "i > length ps" by linarith
  then show ?case
  proof cases
    case 1
    then show ?thesis unfolding msgs p using IH by (simp add: nth_append)
  next
    case 2
    then show ?thesis unfolding msgs p using IH by (auto simp: nth_append)
  next
    case 3
    then show ?thesis unfolding msgs p using IH by (simp add: nth_append)
  qed
qed

lemma loop_speedup:
  "snd (loop init_acc ps) = Inr a \<Longrightarrow>
   Speedup i q \<in> set (messages a) \<longleftrightarrow>
      i < length ps \<and> \<not> (snd (ps ! i) > fmul (fst (ps ! i)) (lit 1.2) \<and> fsub (snd (ps ! i)) (fst (ps ! i)) > 5.0) \<and>
      \<not> fdiv (snd (ps ! i)) (fst (ps ! i)) > lit 1.1 \<and> fdiv (snd (ps ! i)) (fst (ps ! i)) < lit 0.9 \<and>
      q = Fixed 1 (fmul 100 (fsub (fdiv (snd (ps ! i)) (fst (ps ! i))) 1))"
proof (induction ps arbitrary: a rule: rev_induct)
  case Nil
  then show ?case by (auto simp: return_io_def init_acc_def)
next
  case (snoc p ps)
  obtain b l where p: "p = (b, l)" by (cases p)
  from snoc.prems [unfolded p] obtain a' where a': "snd (loop init_acc ps) = Inr a'"
    and msgs: "messages a = messages a' @
       (if l > fmul b (lit 1.2) \<and> fsub l b > 5.0 then [TooSlow (length ps) (Fixed 1 (fmul 100 (fsub (fdiv l b) 1)))]
        else if fdiv l b > lit 1.1 then [Slowdown (length ps) (Fixed 1 (fmul 100 (fsub (fdiv l b) 1)))]
        else if fdiv l b < lit 0.9 then [Speedup (length ps) (Fixed 1 (fmul 100 (fsub (fdiv l b) 1)))]
        else [])"
    by (rule loop_snoc_messages)
  note IH = snoc.IH [OF a']
  consider "i < length ps" | "i = length ps" | "i > length ps" by linarith
  then show ?case
  proof cases
    case 1
    then show ?thesis unfolding msgs p using IH by (simp add: nth_append)
  next
    case 2
    then show ?thesis unfolding msgs p using IH by (auto simp: nth_append)
  next
    case 3
    then show ?thesis unfolding msgs p using IH by (simp add: nth_append)
  qed
qed

lemma py_min_eq: "py_min a b = min a b"
  by (simp add: py_min_def min_def)

lemma py_max_eq: "py_max a b = max a b"
  by (simp add: py_max_def max_def)

subsection \<open>Reading, notifying and comparing\<close>

lemma read_timing_fst: "fst (read_timing w f) = [Print (Reading f)]"
  by (simp add: read_timing_def raise_io_def split: option.splits)

lemma read_timing_snd:
  "snd (read_timing w f) =
     (case read_text w f of None \<Rightarrow> Inl OSError | Some txt \<Rightarrow> floats w (split_str txt))"
  by (simp add: read_timing_def raise_io_def split: option.splits)

lemma read_timing_eq: "read_timing w f = ([Print (Reading f)], snd (read_timing w f))"
  by (metis prod.collapse read_timing_fst)

lemma floats_error: "floats w ts = Inl e \<Longrightarrow> e = ValueError"
  by (induction ts arbitrary: e) (auto split: option.splits sum.splits)

lemma read_timing_error: "snd (read_timing w f) = Inl e \<Longrightarrow> e = OSError \<or> e = ValueError"
  by (auto simp: read_timing_snd split: option.splits dest: floats_error)

lemma send_comment_no_pr: "send_comment w msg tok [] = ([], Inr ())"
  by (simp add: send_comment_def return_io_def)

lemma send_comment_not_assertion: "snd (send_comment w msg tok pr) \<noteq> Inl AssertionError"
  by (simp add: send_comment_def return_io_def raise_io_def Let_def split: option.splits)

lemma send_comment_ok:
  "snd (send_comment w msg tok pr) = Inr () \<Longrightarrow> pr \<noteq> [] \<Longrightarrow>
   \<exists>sha. event_sha w = Some sha \<and>
     fst (send_comment w msg tok pr) =
       [HttpPost \<lparr> url = ''https://api.github.com/repos/returntocorp/semgrep/issues/''
                          @ pr @ ''/comments'',
                   authorization = ''Token '' @ tok,
                   accept = ''application/vnd.github.comfort-fade-preview+json'',
                   body = msg, commit_id = sha \<rparr>,
        Print (MessageLine msg)]"
  by (auto simp: send_comment_def return_io_def raise_io_def Let_def split: option.splits if_splits)

lemma notify_no_pr:
  "notify w a s tok [] =
     (if messages a \<noteq> [] then [Print (SendingLine (messages a @ [Summary (n a) s, Footer]))]
      else [], Inr ())"
  by (simp add: notify_def Let_def send_comment_no_pr return_io_def)

lemma notify_not_assertion: "snd (notify w a s tok pr) \<noteq> Inl AssertionError"
  by (simp add: notify_def Let_def return_io_def send_comment_not_assertion)

lemma notify_fst:
  "fst (notify w a s tok pr) =
     (if messages a \<noteq> []
      then Print (SendingLine (messages a @ [Summary (n a) s, Footer]))
             # fst (send_comment w (messages a @ [Summary (n a) s, Footer]) tok pr)
      else [])"
  by (simp add: notify_def Let_def return_io_def)

lemma notify_snd:
  "snd (notify w a s tok pr) =
     (if messages a \<noteq> []
      then snd (send_comment w (messages a @ [Summary (n a) s, Footer]) tok pr)
      else Inr ())"
  by (simp add: notify_def Let_def return_io_def)

lemma compare_loop_error:
  "snd (loop init_acc (zip bs ls)) = Inl e \<Longrightarrow>
   compare w bs ls tok pr = (fst (loop init_acc (zip bs ls)), Inl e)"
  by (cases "loop init_acc (zip bs ls)") (simp add: compare_def)

lemma compare_empty:
  "zip bs ls = [] \<Longrightarrow> compare w bs ls tok pr = ([], Inl ZeroDivisionError)"
proof -
  assume z: "zip bs ls = []"
  show ?thesis unfolding compare_def z
    by (simp add: mean_of_def init_acc_def raise_io_def)
qed

lemma compare_ok:
  assumes "snd (loop init_acc (zip bs ls)) = Inr a" and "zip bs ls \<noteq> []"
  shows "compare w bs ls tok pr =
    (fst (loop init_acc (zip bs ls)) @
       Print (AverageLine (Fixed 3 (fdiv (snd (last (zip bs ls))) (fst (last (zip bs ls)))))
                          (Fixed 3 (fdiv (snd (last (zip bs ls))) (fst (last (zip bs ls)))))
                          (Fixed 3 (fdiv (snd (last (zip bs ls))) (fst (last (zip bs ls)))))) #
       Print (TotalLine (Repr (total_baseline a)) (Repr (total_latest a))) #
       fst (notify w a (mean_perc_str_of (fdiv (total_rel_dur a) (float_of_nat (n a)))) tok pr),
     case snd (notify w a (mean_perc_str_of (fdiv (total_rel_dur a) (float_of_nat (n a)))) tok pr) of
       Inl e \<Rightarrow> Inl e
     | Inr _ \<Rightarrow> if errors a = 0 \<and> fdiv (total_rel_dur a) (float_of_nat (n a)) < lit 1.06 then Inr ()
                else Inl AssertionError)"
proof -
  from assms have na: "n a \<noteq> 0" and rd: "rel_dur a = Some (fdiv (snd (last (zip bs ls))) (fst (last (zip bs ls))))"
    using loop_n [OF assms(1)] loop_sums [OF assms(1)] by auto
  obtain t where l: "loop init_acc (zip bs ls) = (t, Inr a)"
    using assms(1) by (cases "loop init_acc (zip bs ls)") auto
  obtain t' r' where nt: "notify w a (mean_perc_str_of (fdiv (total_rel_dur a) (float_of_nat (n a)))) tok pr = (t', r')"
    by (cases "notify w a (mean_perc_str_of (fdiv (total_rel_dur a) (float_of_nat (n a)))) tok pr")
  show ?thesis
    by (cases r') 
      (simp_all add: compare_def l mean_of_def na print_summary_def rd nt py_assert_def
        return_io_def raise_io_def print_io_def)
qed

lemma main_short: "length argv < 6 \<Longrightarrow> main w argv = ([], Inl IndexError)"
  by (simp add: main_def raise_io_def)

lemma main_loaded:
  assumes "6 \<le> length argv"
    and "snd (read_timing w (path w (argv ! 1))) = Inr b1"
    and "snd (read_timing w (path w (argv ! 2))) = Inr b2"
    and "snd (read_timing w (path w (argv ! 3))) = Inr l1"
    and "snd (read_timing w (path w (argv ! 4))) = Inr l2"
  shows "main w argv =
    (Print (Reading (path w (argv ! 1))) # Print (Reading (path w (argv ! 2))) #
     Print (Reading (path w (argv ! 3))) # Print (Reading (path w (argv ! 4))) #
     fst (compare w (fastest b1 b2) (fastest l1 l2) (argv ! 5)
            (if 7 \<le> length argv then argv ! 6 else [])),
     snd (compare w (fastest b1 b2) (fastest l1 l2) (argv ! 5)
            (if 7 \<le> length argv then argv ! 6 else [])))"
proof -
  have r: "read_timing w (path w (argv ! 1)) = ([Print (Reading (path w (argv ! 1)))], Inr b1)"
    "read_timing w (path w (argv ! 2)) = ([Print (Reading (path w (argv ! 2)))], Inr b2)"
    "read_timing w (path w (argv ! 3)) = ([Print (Reading (path w (argv ! 3)))], Inr l1)"
    "read_timing w (path w (argv ! 4)) = ([Print (Reading (path w (argv ! 4)))], Inr l2)"
    using assms(2-5) read_timing_eq by metis+
  show ?thesis using assms(1) r by (simp add: main_def Let_def)
qed

lemma main_result_cases:
  "(length argv < 6 \<and> snd (main w argv) = Inl IndexError) \<or>
   (6 \<le> length argv \<and> (snd (main w argv) = Inl OSError \<or> snd (main w argv) = Inl ValueError)) \<or>
   (6 \<le> length argv \<and>
    (\<exists>b1 b2 l1 l2.
       snd (read_timing w (path w (argv ! 1))) = Inr b1 \<and> snd (read_timing w (path w (argv ! 2))) = Inr b2 \<and>
       snd (read_timing w (path w (argv ! 3))) = Inr l1 \<and> snd (read_timing w (path w (argv ! 4))) = Inr l2))"
proof (cases "length argv < 6")
  case True
  then show ?thesis by (simp add: main_short)
next
  case False
  then have len: "6 \<le> length argv" by simp
  have m: "main w argv =
     bind_io (read_timing w (path w (argv ! 1))) (\<lambda>b1.
     bind_io (read_timing w (path w (argv ! 2))) (\<lambda>b2.
     bind_io (read_timing w (path w (argv ! 3))) (\<lambda>l1.
     bind_io (read_timing w (path w (argv ! 4))) (\<lambda>l2.
       compare w (fastest b1 b2) (fastest l1 l2) (argv ! 5)
         (if length argv \<ge> 7 then argv ! 6 else [])))))"
    using False by (simp add: main_def Let_def)
  show ?thesis
  proof (cases "snd (read_timing w (path w (argv ! 1)))")
    case (Inl e)
    then have "snd (main w argv) = Inl e" unfolding m by (simp add: snd_bind_io)
    with read_timing_error [OF Inl] len show ?thesis by auto
  next
    case b1: (Inr b1)
    show ?thesis
    proof (cases "snd (read_timing w (path w (argv ! 2)))")
      case (Inl e)
      then have "snd (main w argv) = Inl e" unfolding m using b1 by (simp add: snd_bind_io)
      with read_timing_error [OF Inl] len show ?thesis by auto
    next
      case b2: (Inr b2)
      show ?thesis
      proof (cases "snd (read_timing w (path w (argv ! 3)))")
        case (Inl e)
        then have "snd (main w argv) = Inl e" unfolding m using b1 b2 by (simp add: snd_bind_io)
        with read_timing_error [OF Inl] len show ?thesis by auto
      next
        case l1: (Inr l1)
        show ?thesis
        proof (cases "snd (read_timing w (path w (argv ! 4)))")
          case (Inl e)
          then have "snd (main w argv) = Inl e"
            unfolding m using b1 b2 l1 by (simp add: snd_bind_io)
          with read_timing_error [OF Inl] len show ?thesis by auto
        next
          case l2: (Inr l2)
          with b1 b2 l1 len show ?thesis by blast
        qed
      qed
    qed
  qed
qed

lemma in_fst_bind_io:
  "e \<in> set (fst (bind_io m f)) \<Longrightarrow>
   e \<in> set (fst m) \<or> (\<exists>x. snd m = Inr x \<and> e \<in> set (fst (f x)))"
  by (cases m; cases "snd m") (auto simp: bind_io_def split: prod.splits)

lemma loop_no_post: "HttpPost req \<notin> set (fst (loop a ps))"
proof (induction ps arbitrary: a)
  case Nil
  then show ?case by (simp add: return_io_def)
next
  case (Cons p ps)
  obtain b l where p: "p = (b, l)" by (cases p)
  show ?case
  proof
    assume "HttpPost req \<in> set (fst (loop a (p # ps)))"
    then have "HttpPost req \<in> set (fst (loop_body a (b, l))) \<or>
               (\<exists>x. HttpPost req \<in> set (fst (loop x ps)))"
      unfolding p loop.simps by (blast dest: in_fst_bind_io)
    with Cons.IH show False by (auto simp: loop_body_fst split: if_splits)
  qed
qed

lemma compare_no_pr_no_post: "HttpPost req \<notin> set (fst (compare w bs ls tok []))"
proof (cases "snd (loop init_acc (zip bs ls))")
  case (Inl e)
  then show ?thesis by (simp add: compare_loop_error loop_no_post)
next
  case (Inr a)
  show ?thesis
  proof (cases "zip bs ls = []")
    case True
    then show ?thesis by (simp add: compare_empty)
  next
    case False
    show ?thesis
      unfolding compare_ok [OF Inr False] by (simp add: loop_no_post notify_no_pr)
  qed
qed

lemma main_unfold:
  "6 \<le> length argv \<Longrightarrow>
   main w argv =
     bind_io (read_timing w (path w (argv ! 1))) (\<lambda>b1.
     bind_io (read_timing w (path w (argv ! 2))) (\<lambda>b2.
     bind_io (read_timing w (path w (argv ! 3))) (\<lambda>l1.
     bind_io (read_timing w (path w (argv ! 4))) (\<lambda>l2.
       compare w (fastest b1 b2) (fastest l1 l2) (argv ! 5)
         (if 7 \<le> length argv then argv ! 6 else [])))))"
  by (simp add: main_def Let_def)

lemma main_no_pr_no_post:
  assumes "length argv < 7 \<or> argv ! 6 = []"
  shows "HttpPost req \<notin> set (fst (main w argv))"
proof (cases "length argv < 6")
  case True
  then show ?thesis by (simp add: main_short)
next
  case False
  then have len: "6 \<le> length argv" by simp
  from assms have pr: "(if 7 \<le> length argv then argv ! 6 else []) = []" by auto
  show ?thesis
  proof
    assume "HttpPost req \<in> set (fst (main w argv))"
    then have "\<exists>b1 b2 l1 l2. HttpPost req \<in>
        set (fst (compare w (fastest b1 b2) (fastest l1 l2) (argv ! 5) []))"
      unfolding main_unfold [OF len] pr
      by (fastforce dest!: in_fst_bind_io simp: read_timing_fst)
    then show False by (simp add: compare_no_pr_no_post)
  qed
qed

lemma floats_world:
  assumes "float_of w' = float_of w"
  shows "floats w' ts = floats w ts"
proof (induction ts)
  case Nil
  show ?case by simp
next
  case (Cons t ts)
  then show ?case by (cases "float_of w t") (simp_all add: assms)
qed

lemma read_timing_world:
  assumes "read_text w' = read_text w" and "float_of w' = float_of w"
  shows "read_timing w' f = read_timing w f"
  by (cases "read_text w f")
     (simp_all add: read_timing_def assms(1) floats_world [OF assms(2)])

lemma compare_no_pr_world: "compare w' bs ls tok [] = compare w bs ls tok []"
proof -
  have "notify w' a s tok [] = notify w a s tok []" for a s
    by (simp add: notify_no_pr)
  then show ?thesis unfolding compare_def by (simp only:)
qed

lemma main_no_pr_world:
  assumes "length argv < 7 \<or> argv ! 6 = []"
    and "read_text w' = read_text w" and "float_of w' = float_of w"
    and "path w' = path w"
  shows "main w' argv = main w argv"
proof (cases "length argv < 6")
  case True
  then show ?thesis by (simp add: main_short)
next
  case False
  then have len: "6 \<le> length argv" by simp
  from assms have pr: "(if 7 \<le> length argv then argv ! 6 else []) = []" by auto
  show ?thesis
    unfolding main_unfold [OF len] pr read_timing_world [OF assms(2,3)] assms(4)
      compare_no_pr_world [of w' _ _ _ w] ..
qed

lemma main_verdict:
  assumes "6 \<le> length argv"
    and "snd (read_timing w (path w (argv ! 1))) = Inr b1"
    and "snd (read_timing w (path w (argv ! 2))) = Inr b2"
    and "snd (read_timing w (path w (argv ! 3))) = Inr l1"
    and "snd (read_timing w (path w (argv ! 4))) = Inr l2"
    and "zip (fastest b1 b2) (fastest l1 l2) \<noteq> []"
    and "snd (loop init_acc (zip (fastest b1 b2) (fastest l1 l2))) = Inr a"
  shows "snd (main w argv) =
    (case snd (notify w a (mean_perc_str_of (fdiv (total_rel_dur a) (float_of_nat (n a)))) (argv ! 5)
                (if 7 \<le> length argv then argv ! 6 else [])) of
       Inl e \<Rightarrow> Inl e
     | Inr _ \<Rightarrow> if errors a = 0 \<and> fdiv (total_rel_dur a) (float_of_nat (n a)) < lit 1.06 then Inr ()
                else Inl AssertionError)"
  unfolding main_loaded [OF assms(1-5)] compare_ok [OF assms(7,6)] by simp

lemma main_reaches_verdict:
  assumes "snd (main w argv) = Inr () \<or> snd (main w argv) = Inl AssertionError"
  shows "\<exists>b1 b2 l1 l2 a.
     6 \<le> length argv \<and>
     snd (read_timing w (path w (argv ! 1))) = Inr b1 \<and> snd (read_timing w (path w (argv ! 2))) = Inr b2 \<and>
     snd (read_timing w (path w (argv ! 3))) = Inr l1 \<and> snd (read_timing w (path w (argv ! 4))) = Inr l2 \<and>
     zip (fastest b1 b2) (fastest l1 l2) \<noteq> [] \<and>
     snd (loop init_acc (zip (fastest b1 b2) (fastest l1 l2))) = Inr a"
proof -
  from main_result_cases [of argv w] assms obtain b1 b2 l1 l2
    where len: "6 \<le> length argv"
      and r: "snd (read_timing w (path w (argv ! 1))) = Inr b1" "snd (read_timing w (path w (argv ! 2))) = Inr b2"
        "snd (read_timing w (path w (argv ! 3))) = Inr l1" "snd (read_timing w (path w (argv ! 4))) = Inr l2"
    by auto
  define ps where "ps = zip (fastest b1 b2) (fastest l1 l2)"
  define pr where "pr = (if 7 \<le> length argv then argv ! 6 else [])"
  note m = main_loaded [OF len r, folded ps_def pr_def]
  from assms m have c: "snd (compare w (fastest b1 b2) (fastest l1 l2) (argv ! 5) pr) = Inr () \<or>
      snd (compare w (fastest b1 b2) (fastest l1 l2) (argv ! 5) pr) = Inl AssertionError"
    by simp
  have ne: "ps \<noteq> []"
    using c compare_empty [of "fastest b1 b2" "fastest l1 l2" w "argv ! 5" pr]
    by (auto simp: ps_def)
  have "\<exists>a. snd (loop init_acc ps) = Inr a"
  proof (cases "snd (loop init_acc ps)")
    case (Inl e)
    from compare_loop_error [of "fastest b1 b2" "fastest l1 l2" e w "argv ! 5" pr] Inl
      loop_error [OF Inl] c
    show ?thesis by (simp add: ps_def)
  next
    case (Inr a)
    then show ?thesis by blast
  qed
  with len r ne show ?thesis unfolding ps_def by blast
qed

lemma loop_trace_prefix:
  "fst (loop a ps) =
     map (\<lambda>(i, b, l). Print (RecordLine i (Fixed 3 (fdiv l b)) (Fixed 3 b) (Fixed 3 l)))
       (enumerate (n a) (takeWhile (\<lambda>(b, l). b \<noteq> 0) ps))"
proof (induction ps arbitrary: a)
  case Nil
  then show ?case by (simp add: return_io_def)
next
  case (Cons p ps)
  obtain b l where p: "p = (b, l)" by (cases p)
  show ?case
  proof (cases "b = 0")
    case True
    then show ?thesis by (simp add: p loop_body_def Let_def raise_io_def)
  next
    case False
    then obtain a1 where a1: "snd (loop_body a (b, l)) = Inr a1"
      by (simp add: loop_body_Inr)
    then have n1: "n a1 = Suc (n a)" by (auto simp: loop_body_Inr Let_def)
    from False a1 show ?thesis
      by (simp add: p fst_bind_io loop_body_fst Cons.IH n1)
  qed
qed


subsection \<open>Runs in the example world\<close>

lemma ex_path: "path (example_world st) arg = arg"
  by (simp add: example_world_def)

lemma ex_reads:
  "snd (read_timing (example_world st) ''base_a'') = Inr [10, 10, 10]"
  "snd (read_timing (example_world st) ''latest_a1'') = Inr [8, 12, 11]"
  "snd (read_timing (example_world st) ''latest_a2'') = Inr [9, lit 12.5, 11]"
  "snd (read_timing (example_world st) ''base_b'') = Inr [100, 1]"
  "snd (read_timing (example_world st) ''latest_b'') = Inr [121, lit 1.3]"
  "snd (read_timing (example_world st) ''base_g'') = Inr [lit 25.5]"
  "snd (read_timing (example_world st) ''latest_g'') = Inr [lit 30.6]"
  "snd (read_timing (example_world st) ''base_c'') = Inr [10]"
  "snd (read_timing (example_world st) ''latest_c1'') = Inr [9]"
  "snd (read_timing (example_world st) ''latest_c2'') = Inr [11]"
  "snd (read_timing (example_world st) ''latest_c3'') = Inr [8]"
  "snd (read_timing (example_world st) ''base_d'') = Inr [100, 100]"
  "snd (read_timing (example_world st) ''latest_d'') = Inr [lit 106.1, lit 106.1]"
  "snd (read_timing (example_world st) ''base_e'') = Inr [1, 1, 1]"
  "snd (read_timing (example_world st) ''latest_e'') = Inr [1, lit 1.09, lit 1.09]"
  "snd (read_timing (example_world st) ''base_f'') = Inr [lit 0.1]"
  "snd (read_timing (example_world st) ''latest_f'') = Inr [lit 0.09]"
  "snd (read_timing (example_world st) ''base_z'') = Inr [1, 0, 1]"
  "snd (read_timing (example_world st) ''latest_z'') = Inr [1, 10, 1]"
  "snd (read_timing (example_world st) ''empty'') = Inr []"
  by (simp_all add: read_timing_snd example_world_def split_str_def isspace_def)


lemma ex_loop_b:
  "snd (loop init_acc [(100, 121), (1, lit 1.3)]) =
     Inr \<lparr> n = 2,
           total_baseline = fadd (fadd 0 100) 1,
           total_latest = fadd (fadd 0 121) (lit 1.3),
           total_rel_dur = fadd (fadd 0 (fdiv 121 100)) (fdiv (lit 1.3) 1),
           min_rel_dur = py_min (py_min 1 (fdiv 121 100)) (fdiv (lit 1.3) 1),
           max_rel_dur = py_max (py_max 1 (fdiv 121 100)) (fdiv (lit 1.3) 1),
           messages = [TooSlow 0 (Fixed 1 (fmul 100 (fsub (fdiv 121 100) 1))),
                       Slowdown 1 (Fixed 1 (fmul 100 (fsub (fdiv (lit 1.3) 1) 1)))],
           errors = 1,
           rel_dur = Some (fdiv (lit 1.3) 1) \<rparr>"
proof -
  have "fmul 100 (lit 1.2) < 121" "5 < fsub 121 100"
    "\<not> 5 < fsub (lit 1.3) 1" "lit 1.1 < fdiv (lit 1.3) 1"
    by code_simp+
  then show ?thesis
    by (simp add: init_acc_def loop_body_def Let_def return_io_def)
qed

lemma ex_mean_b:
  "0 < fmul 100 (fsub (fdiv (fadd (fadd 0 (fdiv 121 100)) (fdiv (lit 1.3) 1)) (float_of_nat 2)) 1)"
  by code_simp

lemma ex_loop_e:
  "snd (loop init_acc [(1, 1), (1, lit 1.09), (1, lit 1.09)]) =
     Inr \<lparr> n = 3,
           total_baseline = fadd (fadd (fadd 0 1) 1) 1,
           total_latest = fadd (fadd (fadd 0 1) (lit 1.09)) (lit 1.09),
           total_rel_dur = fadd (fadd (fadd 0 (fdiv 1 1)) (fdiv (lit 1.09) 1)) (fdiv (lit 1.09) 1),
           min_rel_dur = py_min (py_min (py_min 1 (fdiv 1 1)) (fdiv (lit 1.09) 1)) (fdiv (lit 1.09) 1),
           max_rel_dur = py_max (py_max (py_max 1 (fdiv 1 1)) (fdiv (lit 1.09) 1)) (fdiv (lit 1.09) 1),
           messages = [],
           errors = 0,
           rel_dur = Some (fdiv (lit 1.09) 1) \<rparr>"
proof -
  have "\<not> fmul 1 (lit 1.2) < 1" "\<not> lit 1.1 < fdiv 1 1" "\<not> fdiv 1 1 < lit 0.9"
    "\<not> fmul 1 (lit 1.2) < lit 1.09" "\<not> lit 1.1 < fdiv (lit 1.09) 1"
    "\<not> fdiv (lit 1.09) 1 < lit 0.9"
    by code_simp+
  then show ?thesis
    by (simp add: init_acc_def loop_body_def Let_def return_io_def)
qed

lemma ex_mean_e:
  "fdiv (fadd (fadd (fadd 0 (fdiv 1 1)) (fdiv (lit 1.09) 1)) (fdiv (lit 1.09) 1)) (float_of_nat 3)
     < lit 1.06"
  by code_simp

text \<open>The run on the baseline \<open>1 1 1\<close> and the latest times \<open>1 1.09 1.09\<close>, without a
  pull-request identifier: no benchmark produces a message, the float mean of the
  ratios is below the float 1.06, and the run succeeds.\<close>

lemma ex_main_e:
  "main (example_world st)
     [''compare_perf.py'', ''base_e'', ''base_e'', ''latest_e'', ''latest_e'', ''token''] =
   ([Print (Reading ''base_e''), Print (Reading ''base_e''),
     Print (Reading ''latest_e''), Print (Reading ''latest_e''),
     Print (RecordLine 0 (Fixed 3 (fdiv 1 1)) (Fixed 3 1) (Fixed 3 1)),
     Print (RecordLine 1 (Fixed 3 (fdiv (lit 1.09) 1)) (Fixed 3 1) (Fixed 3 (lit 1.09))),
     Print (RecordLine 2 (Fixed 3 (fdiv (lit 1.09) 1)) (Fixed 3 1) (Fixed 3 (lit 1.09))),
     Print (AverageLine (Fixed 3 (fdiv (lit 1.09) 1)) (Fixed 3 (fdiv (lit 1.09) 1))
              (Fixed 3 (fdiv (lit 1.09) 1))),
     Print (TotalLine (Repr (fadd (fadd (fadd 0 1) 1) 1))
              (Repr (fadd (fadd (fadd 0 1) (lit 1.09)) (lit 1.09))))],
    Inr ())"
proof -
  let ?w = "example_world st"
  let ?argv = "[''compare_perf.py'', ''base_e'', ''base_e'', ''latest_e'', ''latest_e'',
                ''token'']"
  have l: "(6 :: nat) \<le> length ?argv"
    "snd (read_timing ?w (path ?w (?argv ! 1))) = Inr [1, 1, 1]"
    "snd (read_timing ?w (path ?w (?argv ! 2))) = Inr [1, 1, 1]"
    "snd (read_timing ?w (path ?w (?argv ! 3))) = Inr [1, lit 1.09, lit 1.09]"
    "snd (read_timing ?w (path ?w (?argv ! 4))) = Inr [1, lit 1.09, lit 1.09]"
    by (simp_all add: ex_reads ex_path)
  have z: "zip (fastest [1, 1, 1] [1, 1, 1]) (fastest [1, lit 1.09, lit 1.09] [1, lit 1.09, lit 1.09])
             = [(1, 1), (1, lit 1.09), (1, lit 1.09)]"
    by (simp add: fastest_def py_min_def)
  note h = ex_loop_e [folded z]
  have ne: "zip (fastest [1, 1, 1] [1, 1, 1])
                (fastest [1, lit 1.09, lit 1.09] [1, lit 1.09, lit 1.09]) \<noteq> []"
    unfolding z by simp
  have tr: "fst (loop init_acc [(1, 1), (1, lit 1.09), (1, lit 1.09)]) =
    [Print (RecordLine 0 (Fixed 3 (fdiv 1 1)) (Fixed 3 1) (Fixed 3 1)),
     Print (RecordLine 1 (Fixed 3 (fdiv (lit 1.09) 1)) (Fixed 3 1) (Fixed 3 (lit 1.09))),
     Print (RecordLine 2 (Fixed 3 (fdiv (lit 1.09) 1)) (Fixed 3 1) (Fixed 3 (lit 1.09)))]"
    using loop_trace [OF ex_loop_e] by (simp add: enumerate_eq_zip)
  show ?thesis
    unfolding main_loaded [OF l] compare_ok [OF h ne] z tr
    using ex_mean_e by (simp add: notify_def return_io_def ex_path)
qed

section \<open>The claims\<close>

subsection \<open>Reduction of the two samples\<close>

text \<open>
  C8.  The pairwise reduction of two sample sequences \<open>A\<close> and \<open>B\<close> has the length of the
  shorter one (the pairing drops what exceeds the overlapping prefix), element \<open>i\<close> of
  the result is \<open>min (A[i], B[i])\<close>, and for sequences of equal length the result has
  that same length.
\<close>

theorem fastest_pairwise_min:
  "length (fastest A B) = min (length A) (length B) \<and>
   (\<forall>i<min (length A) (length B). fastest A B ! i = min (A ! i) (B ! i)) \<and>
   (length A = length B \<longrightarrow> length (fastest A B) = length A)"
  by (simp add: fastest_def py_min_eq)

theorem fastest_pairwise_min_witness:
  "length (fastest [3, 1, 5] [2, 4]) = 2 \<and>
   fastest [3, 1, 5] [2, 4] ! 0 = 2 \<and> fastest [3, 1, 5] [2, 4] ! 1 = 1 \<and>
   length (fastest [3, 1] [2, 4]) = length [3, 1 :: real]"
  using fastest_pairwise_min [of "[3, 1, 5]" "[2, 4]"] fastest_pairwise_min [of "[3, 1]" "[2, 4]"]
  by (simp add: fastest_def py_min_def)

subsection \<open>Classification of one benchmark\<close>

text \<open>
  C2 as stated (for every benchmark a hard regression occurs exactly when the latest
  time exceeds 1.2 times the baseline time and exceeds it by more than 5.0) does not
  hold for a benchmark whose baseline time is zero: with baseline 0 and latest 10 both
  conditions hold, but the ratio of line 86 is computed first and raises
  \<open>ZeroDivisionError\<close>, so no error is counted and no message is emitted.  The run on the
  files \<open>1 0 1\<close> and \<open>1 10 1\<close> prints the record of benchmark 0 and ends with that error.
\<close>

theorem hard_regression_zero_baseline_counterexample:
  "(10 :: real) > fmul 0 (lit 1.2) \<and> fsub 10 0 > (5.0 :: real) \<and>
   loop_body init_acc (0, 10) = ([], Inl ZeroDivisionError) \<and>
   main (example_world 201)
     [''compare_perf.py'', ''base_z'', ''base_z'', ''latest_z'', ''latest_z'', ''token''] =
   ([Print (Reading ''base_z''), Print (Reading ''base_z''),
     Print (Reading ''latest_z''), Print (Reading ''latest_z''),
     Print (RecordLine 0 (Fixed 3 (fdiv 1 1)) (Fixed 3 1) (Fixed 3 1))],
    Inl ZeroDivisionError)"
proof -
  have c: "fmul 0 (lit 1.2) < 10" "5 < fsub 10 0"
    "\<not> (fmul 1 (lit 1.2) < 1 \<and> 5 < fsub 1 1)" "\<not> lit 1.1 < fdiv 1 1" "\<not> fdiv 1 1 < lit 0.9"
    by code_simp+
  let ?argv = "[''compare_perf.py'', ''base_z'', ''base_z'', ''latest_z'', ''latest_z'',
                ''token'']"
  have l: "(6 :: nat) \<le> length ?argv"
    "snd (read_timing (example_world 201) (path (example_world 201) (?argv ! 1))) = Inr [1, 0, 1]"
    "snd (read_timing (example_world 201) (path (example_world 201) (?argv ! 2))) = Inr [1, 0, 1]"
    "snd (read_timing (example_world 201) (path (example_world 201) (?argv ! 3))) = Inr [1, 10, 1]"
    "snd (read_timing (example_world 201) (path (example_world 201) (?argv ! 4))) = Inr [1, 10, 1]"
    by (simp_all add: ex_reads ex_path)
  have z: "zip (fastest [1, 0, 1] [1, 0, 1]) (fastest [1, 10, 1] [1, 10, 1])
             = [(1, 1), (0, 10), (1, 1)]"
    by (simp add: fastest_def py_min_def)
  have lp: "loop init_acc [(1, 1), (0, 10), (1, 1)] =
          ([Print (RecordLine 0 (Fixed 3 (fdiv 1 1)) (Fixed 3 1) (Fixed 3 1))],
           Inl ZeroDivisionError)"
    using c by (simp add: init_acc_def loop_body_def Let_def return_io_def raise_io_def)
  have m: "main (example_world 201) ?argv =
   ([Print (Reading ''base_z''), Print (Reading ''base_z''),
     Print (Reading ''latest_z''), Print (Reading ''latest_z''),
     Print (RecordLine 0 (Fixed 3 (fdiv 1 1)) (Fixed 3 1) (Fixed 3 1))],
    Inl ZeroDivisionError)"
  proof -
    have "snd (loop init_acc (zip (fastest [1, 0, 1] [1, 0, 1]) (fastest [1, 10, 1] [1, 10, 1])))
            = Inl ZeroDivisionError"
      unfolding z lp by simp
    note ce = compare_loop_error [OF this]
    show ?thesis
      unfolding main_loaded [OF l] ce z lp by (simp add: ex_path)
  qed
  have "loop_body init_acc (0, 10) = ([], Inl ZeroDivisionError)"
    by (simp add: loop_body_def Let_def raise_io_def)
  with c m show ?thesis by simp
qed

text \<open>
  C2, amended.  A benchmark whose baseline time is zero raises \<open>ZeroDivisionError\<close>; every
  other benchmark is classified, and for it a hard regression happens exactly when the
  latest time exceeds the baseline time multiplied by 1.2 and the latest time minus the
  baseline time exceeds 5.0, both computed in float arithmetic as the script does.  For
  one such iteration: under that condition the error count grows by one and the
  blocking message for the current index, with the percentage \<open>100 * (ratio - 1)\<close>, is
  appended; otherwise the error count is unchanged and no blocking message is appended.
  For a whole run of the loop that completes: the error count is the number of
  benchmarks that satisfy the condition, and the blocking messages in the list are
  exactly those of the benchmarks that satisfy it.
\<close>

theorem hard_regression_iff:
  "(b = 0 \<longrightarrow> loop_body a0 (b, l) = ([], Inl ZeroDivisionError)) \<and>
   (b \<noteq> 0 \<longrightarrow> (\<exists>a1. snd (loop_body a0 (b, l)) = Inr a1)) \<and>
   (snd (loop_body a0 (b, l)) = Inr a1 \<longrightarrow>
      (if l > fmul b (lit 1.2) \<and> fsub l b > 5.0
       then errors a1 = errors a0 + 1 \<and>
            messages a1 = messages a0 @ [TooSlow (n a0) (Fixed 1 (fmul 100 (fsub (fdiv l b) 1)))]
       else errors a1 = errors a0 \<and> (\<forall>i q. messages a1 \<noteq> messages a0 @ [TooSlow i q]))) \<and>
   (snd (loop init_acc ps) = Inr a \<longrightarrow>
      errors a = length (filter (\<lambda>(b, l). l > fmul b (lit 1.2) \<and> fsub l b > 5.0) ps) \<and>
      (\<forall>i q. TooSlow i q \<in> set (messages a) \<longleftrightarrow>
         i < length ps \<and>
         snd (ps ! i) > fmul (fst (ps ! i)) (lit 1.2) \<and> fsub (snd (ps ! i)) (fst (ps ! i)) > 5.0 \<and>
         q = Fixed 1 (fmul 100 (fsub (fdiv (snd (ps ! i)) (fst (ps ! i))) 1))))"
proof -
  have 1: "b = 0 \<longrightarrow> loop_body a0 (b, l) = ([], Inl ZeroDivisionError)"
    by (simp add: loop_body_def Let_def raise_io_def)
  have 2: "b \<noteq> 0 \<longrightarrow> (\<exists>a1. snd (loop_body a0 (b, l)) = Inr a1)"
    by (simp add: loop_body_Inr)
  have 3: "snd (loop_body a0 (b, l)) = Inr a1 \<longrightarrow>
      (if l > fmul b (lit 1.2) \<and> fsub l b > 5.0
       then errors a1 = errors a0 + 1 \<and>
            messages a1 = messages a0 @ [TooSlow (n a0) (Fixed 1 (fmul 100 (fsub (fdiv l b) 1)))]
       else errors a1 = errors a0 \<and> (\<forall>i q. messages a1 \<noteq> messages a0 @ [TooSlow i q]))"
    by (auto simp: loop_body_Inr Let_def)
  have 4: "snd (loop init_acc ps) = Inr a \<longrightarrow>
      errors a = length (filter (\<lambda>(b, l). l > fmul b (lit 1.2) \<and> fsub l b > 5.0) ps) \<and>
      (\<forall>i q. TooSlow i q \<in> set (messages a) \<longleftrightarrow>
         i < length ps \<and>
         snd (ps ! i) > fmul (fst (ps ! i)) (lit 1.2) \<and> fsub (snd (ps ! i)) (fst (ps ! i)) > 5.0 \<and>
         q = Fixed 1 (fmul 100 (fsub (fdiv (snd (ps ! i)) (fst (ps ! i))) 1)))"
    by (simp add: loop_sums loop_too_slow)
  from 1 2 3 4 show ?thesis by (intro conjI)
qed

text \<open>Three benchmarks.  Baseline 100 and latest 121 is a hard regression; baseline 1 and
  latest 1.3 is none and gets the non-blocking warning; baseline 25.5 and latest 30.6
  is a hard regression, because the float product \<open>25.5 * 1.2\<close> is below 30.6.\<close>

theorem hard_regression_iff_witness:
  "\<not> isl (snd (loop_body init_acc (100, 121))) \<and>
   errors (projr (snd (loop_body init_acc (100, 121)))) = 1 \<and>
   messages (projr (snd (loop_body init_acc (100, 121)))) =
     [TooSlow 0 (Fixed 1 (fmul 100 (fsub (fdiv 121 100) 1)))] \<and>
   \<not> isl (snd (loop init_acc [(100, 121), (1, lit 1.3), (lit 25.5, lit 30.6)])) \<and>
   errors (projr (snd (loop init_acc [(100, 121), (1, lit 1.3), (lit 25.5, lit 30.6)]))) = 2 \<and>
   messages (projr (snd (loop init_acc [(100, 121), (1, lit 1.3), (lit 25.5, lit 30.6)]))) =
     [TooSlow 0 (Fixed 1 (fmul 100 (fsub (fdiv 121 100) 1))),
      Slowdown 1 (Fixed 1 (fmul 100 (fsub (fdiv (lit 1.3) 1) 1))),
      TooSlow 2 (Fixed 1 (fmul 100 (fsub (fdiv (lit 30.6) (lit 25.5)) 1)))] \<and>
   fmul (lit 25.5) (lit 1.2) < lit 30.6 \<and> 5 < fsub (lit 30.6) (lit 25.5) \<and>
   \<not> 5 < fsub (lit 1.3) 1 \<and> lit 1.1 < fdiv (lit 1.3) 1"
proof -
  let ?ps = "[(100, 121), (1, lit 1.3), (lit 25.5, lit 30.6)] :: (real \<times> real) list"
  have c: "fmul 100 (lit 1.2) < 121" "5 < fsub 121 100"
    "\<not> 5 < fsub (lit 1.3) 1" "lit 1.1 < fdiv (lit 1.3) 1"
    "lit 25.5 \<noteq> 0"
    "fmul (lit 25.5) (lit 1.2) < lit 30.6" "5 < fsub (lit 30.6) (lit 25.5)"
    by code_simp+
  have h1: "snd (loop_body init_acc (100, 121)) = Inr (projr (snd (loop_body init_acc (100, 121))))"
    by (simp add: loop_body_def Let_def return_io_def)
  have h2: "snd (loop init_acc ?ps) = Inr (projr (snd (loop init_acc ?ps)))"
    using c by (simp add: init_acc_def loop_body_def Let_def return_io_def)
  note t = hard_regression_iff
         [of 100 init_acc 121 "projr (snd (loop_body init_acc (100, 121)))" ?ps
             "projr (snd (loop init_acc ?ps))"]
  have f: "length (filter (\<lambda>(b, l). l > fmul b (lit 1.2) \<and> fsub l b > 5.0) ?ps) = 2"
    using c by simp
  have 1: "\<not> isl (snd (loop_body init_acc (100, 121)))"
    using h1 by (metis sum.disc(2))
  have 2: "errors (projr (snd (loop_body init_acc (100, 121)))) = 1"
    "messages (projr (snd (loop_body init_acc (100, 121)))) =
       [TooSlow 0 (Fixed 1 (fmul 100 (fsub (fdiv 121 100) 1)))]"
    using t h1 c by (simp_all add: init_acc_def)
  have 3: "\<not> isl (snd (loop init_acc ?ps))"
    using h2 by (metis sum.disc(2))
  have 4: "errors (projr (snd (loop init_acc ?ps))) = 2"
    using t h2 f by simp
  have 5: "messages (projr (snd (loop init_acc ?ps))) =
     [TooSlow 0 (Fixed 1 (fmul 100 (fsub (fdiv 121 100) 1))),
      Slowdown 1 (Fixed 1 (fmul 100 (fsub (fdiv (lit 1.3) 1) 1))),
      TooSlow 2 (Fixed 1 (fmul 100 (fsub (fdiv (lit 30.6) (lit 25.5)) 1)))]"
    using c by (simp add: init_acc_def loop_body_def Let_def return_io_def)
  from 1 2 3 4 5 c(6,7,3,4) show ?thesis
    apply -
    apply (intro conjI)
             apply assumption+
    done
qed

text \<open>
  C3.  The boundaries of the classification are strict; the ratio is \<open>rel_dur\<close>, the float
  quotient the script computes.  A benchmark whose ratio equals the float 1.1 gets no
  non-blocking warning, one whose ratio equals the float 0.9 gets no speedup message,
  and a benchmark with a ratio from 0.9 to 1.1 that is no hard regression gets no
  message at all.  This holds for one iteration and for every index of a run of the
  loop.
\<close>

theorem classification_boundaries_strict:
  "(snd (loop_body a0 (b, l)) = Inr a1 \<longrightarrow>
      (fdiv l b = lit 1.1 \<longrightarrow> (\<forall>i q. messages a1 \<noteq> messages a0 @ [Slowdown i q])) \<and>
      (fdiv l b = lit 0.9 \<longrightarrow> (\<forall>i q. messages a1 \<noteq> messages a0 @ [Speedup i q])) \<and>
      (lit 0.9 \<le> fdiv l b \<and> fdiv l b \<le> lit 1.1 \<and>
       \<not> (l > fmul b (lit 1.2) \<and> fsub l b > 5.0) \<longrightarrow>
         messages a1 = messages a0 \<and> errors a1 = errors a0)) \<and>
   (snd (loop init_acc ps) = Inr a \<longrightarrow>
      (\<forall>i<length ps.
         (fdiv (snd (ps ! i)) (fst (ps ! i)) = lit 1.1 \<longrightarrow>
            (\<forall>q. Slowdown i q \<notin> set (messages a))) \<and>
         (fdiv (snd (ps ! i)) (fst (ps ! i)) = lit 0.9 \<longrightarrow>
            (\<forall>q. Speedup i q \<notin> set (messages a))) \<and>
         (lit 0.9 \<le> fdiv (snd (ps ! i)) (fst (ps ! i)) \<and>
          fdiv (snd (ps ! i)) (fst (ps ! i)) \<le> lit 1.1 \<and>
          \<not> (snd (ps ! i) > fmul (fst (ps ! i)) (lit 1.2) \<and>
             fsub (snd (ps ! i)) (fst (ps ! i)) > 5.0) \<longrightarrow>
            (\<forall>q. TooSlow i q \<notin> set (messages a) \<and> Slowdown i q \<notin> set (messages a) \<and>
                 Speedup i q \<notin> set (messages a)))))"
proof (rule conjI; rule impI)
  assume "snd (loop_body a0 (b, l)) = Inr a1"
  then show "(fdiv l b = lit 1.1 \<longrightarrow> (\<forall>i q. messages a1 \<noteq> messages a0 @ [Slowdown i q])) \<and>
      (fdiv l b = lit 0.9 \<longrightarrow> (\<forall>i q. messages a1 \<noteq> messages a0 @ [Speedup i q])) \<and>
      (lit 0.9 \<le> fdiv l b \<and> fdiv l b \<le> lit 1.1 \<and>
       \<not> (l > fmul b (lit 1.2) \<and> fsub l b > 5.0) \<longrightarrow>
         messages a1 = messages a0 \<and> errors a1 = errors a0)"
    by (auto simp: loop_body_Inr Let_def)
next
  assume "snd (loop init_acc ps) = Inr a"
  then show "\<forall>i<length ps.
         (fdiv (snd (ps ! i)) (fst (ps ! i)) = lit 1.1 \<longrightarrow>
            (\<forall>q. Slowdown i q \<notin> set (messages a))) \<and>
         (fdiv (snd (ps ! i)) (fst (ps ! i)) = lit 0.9 \<longrightarrow>
            (\<forall>q. Speedup i q \<notin> set (messages a))) \<and>
         (lit 0.9 \<le> fdiv (snd (ps ! i)) (fst (ps ! i)) \<and>
          fdiv (snd (ps ! i)) (fst (ps ! i)) \<le> lit 1.1 \<and>
          \<not> (snd (ps ! i) > fmul (fst (ps ! i)) (lit 1.2) \<and>
             fsub (snd (ps ! i)) (fst (ps ! i)) > 5.0) \<longrightarrow>
            (\<forall>q. TooSlow i q \<notin> set (messages a) \<and> Slowdown i q \<notin> set (messages a) \<and>
                 Speedup i q \<notin> set (messages a)))"
    by (auto simp: loop_too_slow loop_slowdown loop_speedup)
qed

text \<open>Baseline 10 with latest 9 and with latest 11: the float quotients are the floats
  0.9 and 1.1, and neither benchmark produces a message.  The third benchmark, baseline
  0.1 and latest 0.09, is not at the boundary: its float quotient is below the float
  0.9, and it gets the speedup message.\<close>

theorem classification_boundaries_strict_witness:
  "fdiv 9 10 = lit 0.9 \<and> fdiv 11 10 = lit 1.1 \<and>
   \<not> isl (snd (loop_body init_acc (10, 11))) \<and>
   messages (projr (snd (loop_body init_acc (10, 11)))) = [] \<and>
   \<not> isl (snd (loop init_acc [(10, 9), (10, 11), (lit 0.1, lit 0.09)])) \<and>
   fdiv (lit 0.09) (lit 0.1) < lit 0.9 \<and>
   messages (projr (snd (loop init_acc [(10, 9), (10, 11), (lit 0.1, lit 0.09)]))) =
     [Speedup 2 (Fixed 1 (fmul 100 (fsub (fdiv (lit 0.09) (lit 0.1)) 1)))]"
proof -
  let ?ps = "[(10, 9), (10, 11), (lit 0.1, lit 0.09)] :: (real \<times> real) list"
  have c: "fdiv 9 10 = lit 0.9" "fdiv 11 10 = lit 1.1"
    "\<not> fmul 10 (lit 1.2) < 9" "\<not> fmul 10 (lit 1.2) < 11" "\<not> lit 1.1 < lit 0.9"
    "lit 0.1 \<noteq> 0" "\<not> fmul (lit 0.1) (lit 1.2) < lit 0.09"
    "\<not> lit 1.1 < fdiv (lit 0.09) (lit 0.1)" "fdiv (lit 0.09) (lit 0.1) < lit 0.9"
    by code_simp+
  have h1: "snd (loop_body init_acc (10, 11)) = Inr (projr (snd (loop_body init_acc (10, 11))))"
    by (simp add: loop_body_def Let_def return_io_def)
  have h2: "snd (loop init_acc ?ps) = Inr (projr (snd (loop init_acc ?ps)))"
    using c by (simp add: init_acc_def loop_body_def Let_def return_io_def)
  note t = classification_boundaries_strict
         [of init_acc 10 11 "projr (snd (loop_body init_acc (10, 11)))" ?ps
             "projr (snd (loop init_acc ?ps))"]
  have 1: "\<not> isl (snd (loop_body init_acc (10, 11)))"
    using h1 by (metis sum.disc(2))
  have 2: "messages (projr (snd (loop_body init_acc (10, 11)))) = []"
    using t h1 c by (simp add: init_acc_def)
  have 3: "\<not> isl (snd (loop init_acc ?ps))"
    using h2 by (metis sum.disc(2))
  have 4: "messages (projr (snd (loop init_acc ?ps))) =
     [Speedup 2 (Fixed 1 (fmul 100 (fsub (fdiv (lit 0.09) (lit 0.1)) 1)))]"
    using c by (simp add: init_acc_def loop_body_def Let_def return_io_def)
  from c(1,2) 1 2 3 c(9) 4 show ?thesis
    apply -
    apply (intro conjI)
          apply assumption+
    done
qed

text \<open>
  C10.  The three branches of the classification exclude each other, so one iteration
  appends at most one message, and after the loop (before the two summary entries are
  added) the message list has at most as many entries as benchmarks were compared; no
  index carries messages of two different kinds.
\<close>

theorem at_most_one_message_per_benchmark:
  "(snd (loop_body a0 p) = Inr a1 \<longrightarrow>
      messages a1 = messages a0 \<or> (\<exists>m. messages a1 = messages a0 @ [m])) \<and>
   (snd (loop init_acc ps) = Inr a \<longrightarrow>
      n a = length ps \<and> length (messages a) \<le> n a \<and>
      (\<forall>i q q'.
         \<not> (TooSlow i q \<in> set (messages a) \<and> Slowdown i q' \<in> set (messages a)) \<and>
         \<not> (TooSlow i q \<in> set (messages a) \<and> Speedup i q' \<in> set (messages a)) \<and>
         \<not> (Slowdown i q \<in> set (messages a) \<and> Speedup i q' \<in> set (messages a))))"
proof (rule conjI; rule impI)
  assume "snd (loop_body a0 p) = Inr a1"
  then show "messages a1 = messages a0 \<or> (\<exists>m. messages a1 = messages a0 @ [m])"
    by (cases p) (auto simp: loop_body_Inr Let_def)
next
  assume l: "snd (loop init_acc ps) = Inr a"
  have "n a = length ps" "length (messages a) \<le> length ps"
    using loop_n [OF l] loop_sums [OF l] by simp_all
  moreover have "\<not> (TooSlow i q \<in> set (messages a) \<and> Slowdown i q' \<in> set (messages a))"
    "\<not> (TooSlow i q \<in> set (messages a) \<and> Speedup i q' \<in> set (messages a))"
    "\<not> (Slowdown i q \<in> set (messages a) \<and> Speedup i q' \<in> set (messages a))" for i q q'
    using loop_too_slow [OF l] loop_slowdown [OF l] loop_speedup [OF l] by blast+
  ultimately show "n a = length ps \<and> length (messages a) \<le> n a \<and>
      (\<forall>i q q'.
         \<not> (TooSlow i q \<in> set (messages a) \<and> Slowdown i q' \<in> set (messages a)) \<and>
         \<not> (TooSlow i q \<in> set (messages a) \<and> Speedup i q' \<in> set (messages a)) \<and>
         \<not> (Slowdown i q \<in> set (messages a) \<and> Speedup i q' \<in> set (messages a)))"
    by simp
qed

text \<open>Three benchmarks: a speedup, no message, a hard regression; two messages for
  three benchmarks.\<close>

theorem at_most_one_message_per_benchmark_witness:
  "\<not> isl (snd (loop_body init_acc (10, 8))) \<and>
   messages (projr (snd (loop_body init_acc (10, 8)))) =
     [Speedup 0 (Fixed 1 (fmul 100 (fsub (fdiv 8 10) 1)))] \<and>
   \<not> isl (snd (loop init_acc [(10, 8), (10, 10), (100, 130)])) \<and>
   n (projr (snd (loop init_acc [(10, 8), (10, 10), (100, 130)]))) = 3 \<and>
   messages (projr (snd (loop init_acc [(10, 8), (10, 10), (100, 130)]))) =
     [Speedup 0 (Fixed 1 (fmul 100 (fsub (fdiv 8 10) 1))),
      TooSlow 2 (Fixed 1 (fmul 100 (fsub (fdiv 130 100) 1)))] \<and>
   length (messages (projr (snd (loop init_acc [(10, 8), (10, 10), (100, 130)])))) \<le> 3"
proof -
  let ?ps = "[(10, 8), (10, 10), (100, 130)] :: (real \<times> real) list"
  have c: "\<not> fmul 10 (lit 1.2) < 8" "\<not> lit 1.1 < fdiv 8 10" "fdiv 8 10 < lit 0.9"
    "\<not> fmul 10 (lit 1.2) < 10" "\<not> lit 1.1 < fdiv 10 10" "\<not> fdiv 10 10 < lit 0.9"
    "fmul 100 (lit 1.2) < 130" "5 < fsub 130 100"
    by code_simp+
  have h1: "snd (loop_body init_acc (10, 8)) = Inr (projr (snd (loop_body init_acc (10, 8))))"
    by (simp add: loop_body_def Let_def return_io_def)
  have h2: "snd (loop init_acc ?ps) = Inr (projr (snd (loop init_acc ?ps)))"
    using c by (simp add: init_acc_def loop_body_def Let_def return_io_def)
  note t = at_most_one_message_per_benchmark
         [of init_acc "(10, 8)" "projr (snd (loop_body init_acc (10, 8)))" ?ps
             "projr (snd (loop init_acc ?ps))"]
  have 1: "\<not> isl (snd (loop_body init_acc (10, 8)))"
    using h1 by (metis sum.disc(2))
  have 2: "messages (projr (snd (loop_body init_acc (10, 8)))) =
     [Speedup 0 (Fixed 1 (fmul 100 (fsub (fdiv 8 10) 1)))]"
    using c by (simp add: init_acc_def loop_body_def Let_def return_io_def)
  have 3: "\<not> isl (snd (loop init_acc ?ps))"
    using h2 by (metis sum.disc(2))
  have 4: "n (projr (snd (loop init_acc ?ps))) = 3"
    using t h2 by simp
  have 5: "messages (projr (snd (loop init_acc ?ps))) =
     [Speedup 0 (Fixed 1 (fmul 100 (fsub (fdiv 8 10) 1))),
      TooSlow 2 (Fixed 1 (fmul 100 (fsub (fdiv 130 100) 1)))]"
    using c by (simp add: init_acc_def loop_body_def Let_def return_io_def)
  have 6: "length (messages (projr (snd (loop init_acc ?ps)))) \<le> 3"
    using t h2 by simp
  from 1 2 3 4 5 6 show ?thesis
    apply -
    apply (intro conjI)
         apply assumption+
    done
qed

subsection \<open>Number of benchmarks compared\<close>

text \<open>
  C9 as stated (the final count and the number of record lines printed always equal the
  minimum of the four file lengths) does not hold when a baseline time is zero: the
  loop raises there.  With the files \<open>1 0 1\<close> (baseline, twice) and \<open>1 10 1\<close> (latest,
  twice) the minimum of the four lengths is 3, but only one record line is printed
  before the run ends with \<open>ZeroDivisionError\<close>.
\<close>

theorem compared_count_counterexample:
  "min (min (length [1, 0, 1 :: real]) (length [1, 0, 1 :: real]))
       (min (length [1, 10, 1 :: real]) (length [1, 10, 1 :: real])) = 3 \<and>
   loop init_acc (zip (fastest [1, 0, 1] [1, 0, 1]) (fastest [1, 10, 1] [1, 10, 1])) =
     ([Print (RecordLine 0 (Fixed 3 (fdiv 1 1)) (Fixed 3 1) (Fixed 3 1))],
      Inl ZeroDivisionError) \<and>
   length [Print (RecordLine 0 (Fixed 3 (fdiv 1 1)) (Fixed 3 1) (Fixed 3 1))] = 1 \<and>
   main (example_world 201)
     [''compare_perf.py'', ''base_z'', ''base_z'', ''latest_z'', ''latest_z'', ''token''] =
   ([Print (Reading ''base_z''), Print (Reading ''base_z''),
     Print (Reading ''latest_z''), Print (Reading ''latest_z''),
     Print (RecordLine 0 (Fixed 3 (fdiv 1 1)) (Fixed 3 1) (Fixed 3 1))],
    Inl ZeroDivisionError)"
proof -
  have c: "\<not> (fmul 1 (lit 1.2) < 1 \<and> 5 < fsub 1 1)" "\<not> lit 1.1 < fdiv 1 1"
    "\<not> fdiv 1 1 < lit 0.9"
    by code_simp+
  let ?argv = "[''compare_perf.py'', ''base_z'', ''base_z'', ''latest_z'', ''latest_z'',
                ''token'']"
  have l: "(6 :: nat) \<le> length ?argv"
    "snd (read_timing (example_world 201) (path (example_world 201) (?argv ! 1))) = Inr [1, 0, 1]"
    "snd (read_timing (example_world 201) (path (example_world 201) (?argv ! 2))) = Inr [1, 0, 1]"
    "snd (read_timing (example_world 201) (path (example_world 201) (?argv ! 3))) = Inr [1, 10, 1]"
    "snd (read_timing (example_world 201) (path (example_world 201) (?argv ! 4))) = Inr [1, 10, 1]"
    by (simp_all add: ex_reads ex_path)
  have z: "zip (fastest [1, 0, 1] [1, 0, 1]) (fastest [1, 10, 1] [1, 10, 1])
             = [(1, 1), (0, 10), (1, 1)]"
    by (simp add: fastest_def py_min_def)
  have lp: "loop init_acc [(1, 1), (0, 10), (1, 1)] =
          ([Print (RecordLine 0 (Fixed 3 (fdiv 1 1)) (Fixed 3 1) (Fixed 3 1))],
           Inl ZeroDivisionError)"
    using c by (simp add: init_acc_def loop_body_def Let_def return_io_def raise_io_def)
  have m: "main (example_world 201) ?argv =
   ([Print (Reading ''base_z''), Print (Reading ''base_z''),
     Print (Reading ''latest_z''), Print (Reading ''latest_z''),
     Print (RecordLine 0 (Fixed 3 (fdiv 1 1)) (Fixed 3 1) (Fixed 3 1))],
    Inl ZeroDivisionError)"
  proof -
    have "snd (loop init_acc (zip (fastest [1, 0, 1] [1, 0, 1]) (fastest [1, 10, 1] [1, 10, 1])))
            = Inl ZeroDivisionError"
      unfolding z lp by simp
    note ce = compare_loop_error [OF this]
    show ?thesis
      unfolding main_loaded [OF l] ce z lp by (simp add: ex_path)
  qed
  from m lp show ?thesis unfolding z by simp
qed

text \<open>
  C9, amended.  The pairing truncates once inside the baseline pair, once inside the
  latest pair and once more between the two reduced sequences, so the number of
  benchmarks handed to the loop always equals the minimum of the four file lengths.
  The loop prints one record line per benchmark, in order, up to the first benchmark
  whose baseline time is zero, where it raises \<open>ZeroDivisionError\<close>.  It completes
  exactly when no baseline time is zero, and then the final count \<open>n\<close> and the number of
  record lines printed both equal that minimum.
\<close>

theorem compared_count_is_min_of_four:
  "length (fastest b1 b2) = min (length b1) (length b2) \<and>
   length (fastest l1 l2) = min (length l1) (length l2) \<and>
   length (zip (fastest b1 b2) (fastest l1 l2)) =
     min (min (length b1) (length b2)) (min (length l1) (length l2)) \<and>
   fst (loop init_acc (zip (fastest b1 b2) (fastest l1 l2))) =
     map (\<lambda>(i, b, l). Print (RecordLine i (Fixed 3 (fdiv l b)) (Fixed 3 b) (Fixed 3 l)))
       (enumerate 0 (takeWhile (\<lambda>(b, l). b \<noteq> 0) (zip (fastest b1 b2) (fastest l1 l2)))) \<and>
   ((\<exists>a. snd (loop init_acc (zip (fastest b1 b2) (fastest l1 l2))) = Inr a) \<longleftrightarrow>
      (\<forall>p\<in>set (zip (fastest b1 b2) (fastest l1 l2)). fst p \<noteq> 0)) \<and>
   (snd (loop init_acc (zip (fastest b1 b2) (fastest l1 l2))) = Inr a \<longrightarrow>
      n a = min (min (length b1) (length b2)) (min (length l1) (length l2)) \<and>
      fst (loop init_acc (zip (fastest b1 b2) (fastest l1 l2))) =
        map (\<lambda>(i, b, l). Print (RecordLine i (Fixed 3 (fdiv l b)) (Fixed 3 b) (Fixed 3 l)))
          (enumerate 0 (zip (fastest b1 b2) (fastest l1 l2))) \<and>
      length (fst (loop init_acc (zip (fastest b1 b2) (fastest l1 l2)))) =
        min (min (length b1) (length b2)) (min (length l1) (length l2)))"
proof -
  define ps where "ps = zip (fastest b1 b2) (fastest l1 l2)"
  have len: "length ps = min (min (length b1) (length b2)) (min (length l1) (length l2))"
    by (simp add: ps_def fastest_def)
  have 1: "length (fastest b1 b2) = min (length b1) (length b2)"
    "length (fastest l1 l2) = min (length l1) (length l2)"
    by (simp_all add: fastest_def)
  have 2: "fst (loop init_acc ps) =
     map (\<lambda>(i, b, l). Print (RecordLine i (Fixed 3 (fdiv l b)) (Fixed 3 b) (Fixed 3 l)))
       (enumerate 0 (takeWhile (\<lambda>(b, l). b \<noteq> 0) ps))"
    using loop_trace_prefix [of init_acc ps] by (simp add: init_acc_def)
  have 3: "(\<exists>a. snd (loop init_acc ps) = Inr a) \<longleftrightarrow> (\<forall>p\<in>set ps. fst p \<noteq> 0)"
    using loop_total [of ps init_acc] loop_nonzero [of ps] by blast
  have 4: "n a = min (min (length b1) (length b2)) (min (length l1) (length l2)) \<and>
      fst (loop init_acc ps) =
        map (\<lambda>(i, b, l). Print (RecordLine i (Fixed 3 (fdiv l b)) (Fixed 3 b) (Fixed 3 l)))
          (enumerate 0 ps) \<and>
      length (fst (loop init_acc ps)) =
        min (min (length b1) (length b2)) (min (length l1) (length l2))"
    if l: "snd (loop init_acc ps) = Inr a"
    using loop_n [OF l] loop_trace [OF l] len by simp
  from 1 len 2 3 4 show ?thesis unfolding ps_def by blast
qed

text \<open>Four files of the lengths 3, 2, 4 and 3 without a zero: two benchmarks are
  compared and two record lines are printed.\<close>

theorem compared_count_is_min_of_four_witness:
  "zip (fastest [10, 10, 10] [12, 9]) (fastest [11, 9, 7, 5] [9, 10, 9]) = [(10, 9), (9, 9)] \<and>
   min (min (length [10, 10, 10 :: real]) (length [12, 9 :: real]))
       (min (length [11, 9, 7, 5 :: real]) (length [9, 10, 9 :: real])) = 2 \<and>
   \<not> isl (snd (loop init_acc (zip (fastest [10, 10, 10] [12, 9])
                                    (fastest [11, 9, 7, 5] [9, 10, 9])))) \<and>
   n (projr (snd (loop init_acc (zip (fastest [10, 10, 10] [12, 9])
                                     (fastest [11, 9, 7, 5] [9, 10, 9]))))) = 2 \<and>
   fst (loop init_acc (zip (fastest [10, 10, 10] [12, 9]) (fastest [11, 9, 7, 5] [9, 10, 9]))) =
     [Print (RecordLine 0 (Fixed 3 (fdiv 9 10)) (Fixed 3 10) (Fixed 3 9)),
      Print (RecordLine 1 (Fixed 3 (fdiv 9 9)) (Fixed 3 9) (Fixed 3 9))]"
proof -
  let ?z = "zip (fastest [10, 10, 10] [12, 9]) (fastest [11, 9, 7, 5] [9, 10, 9])"
  have z: "?z = [(10, 9), (9, 9)]"
    by (simp add: fastest_def py_min_def)
  note t = compared_count_is_min_of_four
         [of "[10, 10, 10]" "[12, 9]" "[11, 9, 7, 5]" "[9, 10, 9]" "projr (snd (loop init_acc ?z))"]
  have nz: "\<forall>p\<in>set ?z. fst p \<noteq> 0"
    unfolding z by simp
  with t have "\<exists>a. snd (loop init_acc ?z) = Inr a" by blast
  then have h: "snd (loop init_acc ?z) = Inr (projr (snd (loop init_acc ?z)))"
    by auto
  have 1: "\<not> isl (snd (loop init_acc ?z))"
    using h by (metis sum.disc(2))
  have 2: "n (projr (snd (loop init_acc ?z))) = 2"
    using t h by simp
  have 3: "fst (loop init_acc ?z) =
     [Print (RecordLine 0 (Fixed 3 (fdiv 9 10)) (Fixed 3 10) (Fixed 3 9)),
      Print (RecordLine 1 (Fixed 3 (fdiv 9 9)) (Fixed 3 9) (Fixed 3 9))]"
    using t z by (simp add: enumerate_eq_zip)
  have 4: "min (min (length [10, 10, 10 :: real]) (length [12, 9 :: real]))
       (min (length [11, 9, 7, 5 :: real]) (length [9, 10, 9 :: real])) = 2"
    by simp
  from z 4 1 2 3 show ?thesis
    apply -
    apply (intro conjI)
        apply assumption+
    done
qed

subsection \<open>Empty input\<close>

text \<open>
  C6.  When the four files load but the reduction leaves no benchmark (one of the four
  sequences is empty), the run ends with the division error of the mean (line 110): it
  has printed only the four \<open>Reading\<close> lines, and neither assertion is reached.
\<close>

theorem empty_input_division_error:
  assumes "6 \<le> length argv"
    and "snd (read_timing w (path w (argv ! 1))) = Inr b1"
    and "snd (read_timing w (path w (argv ! 2))) = Inr b2"
    and "snd (read_timing w (path w (argv ! 3))) = Inr l1"
    and "snd (read_timing w (path w (argv ! 4))) = Inr l2"
    and "min (min (length b1) (length b2)) (min (length l1) (length l2)) = 0"
  shows "loop init_acc (zip (fastest b1 b2) (fastest l1 l2)) = ([], Inr init_acc) \<and>
         n init_acc = 0 \<and> mean_of init_acc = Inl ZeroDivisionError \<and>
         main w argv =
           ([Print (Reading (path w (argv ! 1))), Print (Reading (path w (argv ! 2))),
             Print (Reading (path w (argv ! 3))), Print (Reading (path w (argv ! 4)))],
            Inl ZeroDivisionError)"
proof -
  have "length (zip (fastest b1 b2) (fastest l1 l2)) = 0"
    using assms(6) by (simp add: fastest_def)
  then have z: "zip (fastest b1 b2) (fastest l1 l2) = []" by (simp only: length_0_conv)
  have "main w argv =
           ([Print (Reading (path w (argv ! 1))), Print (Reading (path w (argv ! 2))),
             Print (Reading (path w (argv ! 3))), Print (Reading (path w (argv ! 4)))],
            Inl ZeroDivisionError)"
    using main_loaded [OF assms(1-5)] by (simp add: compare_empty [OF z])
  then show ?thesis
    unfolding z by (simp add: return_io_def mean_of_def init_acc_def)
qed

theorem empty_input_division_error_witness:
  "main (example_world 201)
     [''compare_perf.py'', ''empty'', ''base_a'', ''latest_a1'', ''latest_a2'', ''token'', ''7''] =
     ([Print (Reading ''empty''), Print (Reading ''base_a''),
       Print (Reading ''latest_a1''), Print (Reading ''latest_a2'')],
      Inl ZeroDivisionError)"
proof -
  let ?w = "example_world 201"
  let ?argv = "[''compare_perf.py'', ''empty'', ''base_a'', ''latest_a1'', ''latest_a2'',
                ''token'', ''7'']"
  have "(6 :: nat) \<le> length ?argv"
    and "snd (read_timing ?w (path ?w (?argv ! 1))) = Inr []"
    and "snd (read_timing ?w (path ?w (?argv ! 2))) = Inr [10, 10, 10]"
    and "snd (read_timing ?w (path ?w (?argv ! 3))) = Inr [8, 12, 11]"
    and "snd (read_timing ?w (path ?w (?argv ! 4))) = Inr [9, lit 12.5, 11]"
    and "min (min (length ([] :: real list)) (length [10, 10, 10 :: real]))
             (min (length [8, 12, 11 :: real]) (length [9, lit 12.5, 11])) = 0"
    by (simp_all add: ex_reads ex_path)
  from empty_input_division_error [OF this] show ?thesis by (simp add: ex_path)
qed

subsection \<open>The report\<close>

text \<open>
  C4.  For a run whose four files load and whose comparison does not raise (at least
  one benchmark, no zero baseline), the output is, in order: the four \<open>Reading\<close> lines;
  for each record its index, its ratio and its raw baseline and latest values, all three
  with 3 decimals; one line whose \<open>Average\<close>, \<open>Min\<close> and \<open>Max\<close> fields all show the ratio
  of the last record; one line with the sums of the baseline and of the latest times;
  then whatever the notification step prints.
\<close>

theorem summary_prints_last_ratio:
  assumes "6 \<le> length argv"
    and "snd (read_timing w (path w (argv ! 1))) = Inr b1"
    and "snd (read_timing w (path w (argv ! 2))) = Inr b2"
    and "snd (read_timing w (path w (argv ! 3))) = Inr l1"
    and "snd (read_timing w (path w (argv ! 4))) = Inr l2"
    and "zip (fastest b1 b2) (fastest l1 l2) = ps"
    and "ps \<noteq> []" and "\<forall>p\<in>set ps. fst p \<noteq> 0"
  shows "\<exists>a. snd (loop init_acc ps) = Inr a \<and>
     fst (main w argv) =
       [Print (Reading (path w (argv ! 1))), Print (Reading (path w (argv ! 2))),
        Print (Reading (path w (argv ! 3))), Print (Reading (path w (argv ! 4)))] @
       map (\<lambda>(i, b, l). Print (RecordLine i (Fixed 3 (fdiv l b)) (Fixed 3 b) (Fixed 3 l)))
         (enumerate 0 ps) @
       [Print (AverageLine (Fixed 3 (fdiv (snd (last ps)) (fst (last ps))))
                           (Fixed 3 (fdiv (snd (last ps)) (fst (last ps))))
                           (Fixed 3 (fdiv (snd (last ps)) (fst (last ps))))),
        Print (TotalLine (Repr (foldl fadd 0 (map fst ps))) (Repr (foldl fadd 0 (map snd ps))))] @
       fst (notify w a (mean_perc_str_of (fdiv (total_rel_dur a) (float_of_nat (n a)))) (argv ! 5)
              (if 7 \<le> length argv then argv ! 6 else []))"
proof -
  from loop_total [OF assms(8)] obtain a where a: "snd (loop init_acc ps) = Inr a" by blast
  have a': "snd (loop init_acc (zip (fastest b1 b2) (fastest l1 l2))) = Inr a"
    and ne: "zip (fastest b1 b2) (fastest l1 l2) \<noteq> []"
    using a assms(6,7) by simp_all
  have "fst (main w argv) =
       [Print (Reading (path w (argv ! 1))), Print (Reading (path w (argv ! 2))),
        Print (Reading (path w (argv ! 3))), Print (Reading (path w (argv ! 4)))] @
       map (\<lambda>(i, b, l). Print (RecordLine i (Fixed 3 (fdiv l b)) (Fixed 3 b) (Fixed 3 l)))
         (enumerate 0 ps) @
       [Print (AverageLine (Fixed 3 (fdiv (snd (last ps)) (fst (last ps))))
                           (Fixed 3 (fdiv (snd (last ps)) (fst (last ps))))
                           (Fixed 3 (fdiv (snd (last ps)) (fst (last ps))))),
        Print (TotalLine (Repr (foldl fadd 0 (map fst ps))) (Repr (foldl fadd 0 (map snd ps))))] @
       fst (notify w a (mean_perc_str_of (fdiv (total_rel_dur a) (float_of_nat (n a)))) (argv ! 5)
              (if 7 \<le> length argv then argv ! 6 else []))"
    unfolding main_loaded [OF assms(1-5)] compare_ok [OF a' ne]
    using loop_trace [OF a] loop_sums [OF a] by (simp add: assms(6))
  with a show ?thesis by blast
qed

text \<open>Three benchmarks with the ratios 0.8, 1.2 and 1.1: the summary line shows the
  ratio of the last one, 1.1, three times, while the tracked minimum is the ratio 0.8,
  the tracked maximum the ratio 1.2 and the mean lies below 1.1.\<close>

theorem summary_prints_last_ratio_witness:
  "fst (main (example_world 201)
          [''compare_perf.py'', ''base_a'', ''base_a'', ''latest_a1'', ''latest_a2'', ''token'']) =
     [Print (Reading ''base_a''), Print (Reading ''base_a''),
      Print (Reading ''latest_a1''), Print (Reading ''latest_a2''),
      Print (RecordLine 0 (Fixed 3 (fdiv 8 10)) (Fixed 3 10) (Fixed 3 8)),
      Print (RecordLine 1 (Fixed 3 (fdiv 12 10)) (Fixed 3 10) (Fixed 3 12)),
      Print (RecordLine 2 (Fixed 3 (fdiv 11 10)) (Fixed 3 10) (Fixed 3 11)),
      Print (AverageLine (Fixed 3 (fdiv 11 10)) (Fixed 3 (fdiv 11 10)) (Fixed 3 (fdiv 11 10))),
      Print (TotalLine (Repr 30) (Repr 31)),
      Print (SendingLine
        [Speedup 0 (Fixed 1 (fmul 100 (fsub (fdiv 8 10) 1))),
         Slowdown 1 (Fixed 1 (fmul 100 (fsub (fdiv 12 10) 1))),
         Summary 3 (Slower (Fixed 1 (fmul 100 (fsub
           (fdiv (fadd (fadd (fadd 0 (fdiv 8 10)) (fdiv 12 10)) (fdiv 11 10)) (float_of_nat 3))
           1)))),
         Footer])] \<and>
   fdiv 11 10 = lit 1.1 \<and>
   min_rel_dur (projr (snd (loop init_acc [(10, 8), (10, 12), (10, 11)]))) = fdiv 8 10 \<and>
   max_rel_dur (projr (snd (loop init_acc [(10, 8), (10, 12), (10, 11)]))) = fdiv 12 10 \<and>
   mean_of (projr (snd (loop init_acc [(10, 8), (10, 12), (10, 11)]))) =
     Inr (fdiv (fadd (fadd (fadd 0 (fdiv 8 10)) (fdiv 12 10)) (fdiv 11 10)) (float_of_nat 3)) \<and>
   fdiv 8 10 < fdiv 11 10 \<and> fdiv 11 10 < fdiv 12 10 \<and>
   fdiv (fadd (fadd (fadd 0 (fdiv 8 10)) (fdiv 12 10)) (fdiv 11 10)) (float_of_nat 3)
     < fdiv 11 10"
proof -
  let ?w = "example_world 201"
  let ?argv = "[''compare_perf.py'', ''base_a'', ''base_a'', ''latest_a1'', ''latest_a2'',
                ''token'']"
  let ?ps = "[(10, 8), (10, 12), (10, 11)] :: (real \<times> real) list"
  let ?mean = "fdiv (fadd (fadd (fadd 0 (fdiv 8 10)) (fdiv 12 10)) (fdiv 11 10)) (float_of_nat 3)"
  have c: "\<not> fmul 10 (lit 1.2) < 8" "\<not> lit 1.1 < fdiv 8 10" "fdiv 8 10 < lit 0.9"
    "\<not> fmul 10 (lit 1.2) < 12" "lit 1.1 < fdiv 12 10"
    "\<not> fmul 10 (lit 1.2) < 11" "\<not> lit 1.1 < fdiv 11 10" "\<not> fdiv 11 10 < lit 0.9"
    by code_simp+
  have d: "fdiv 8 10 < 1" "\<not> 1 < fdiv 8 10" "\<not> fdiv 12 10 < fdiv 8 10" "fdiv 8 10 < fdiv 12 10"
    "1 < fdiv 12 10" "\<not> fdiv 11 10 < fdiv 8 10" "\<not> fdiv 12 10 < fdiv 11 10"
    "fdiv 8 10 < fdiv 11 10" "fdiv 11 10 < fdiv 12 10" "fdiv 11 10 = lit 1.1"
    by code_simp+
  have s: "fadd (fadd (fadd 0 10) 10) 10 = 30" "fadd (fadd (fadd 0 8) 12) 11 = 31"
    "0 < fmul 100 (fsub ?mean 1)" "?mean < fdiv 11 10"
    by code_simp+
  define a where "a = projr (snd (loop init_acc ?ps))"
  have h: "snd (loop init_acc ?ps) = Inr a"
    unfolding a_def using c by (simp add: init_acc_def loop_body_def Let_def return_io_def)
  have fa: "n a = 3" "messages a =
        [Speedup 0 (Fixed 1 (fmul 100 (fsub (fdiv 8 10) 1))),
         Slowdown 1 (Fixed 1 (fmul 100 (fsub (fdiv 12 10) 1)))]"
    "total_rel_dur a = fadd (fadd (fadd 0 (fdiv 8 10)) (fdiv 12 10)) (fdiv 11 10)"
    "min_rel_dur a = fdiv 8 10" "max_rel_dur a = fdiv 12 10"
    unfolding a_def using c d
    by (simp_all add: init_acc_def loop_body_def Let_def return_io_def py_min_def py_max_def)
  have l: "(6 :: nat) \<le> length ?argv"
    "snd (read_timing ?w (path ?w (?argv ! 1))) = Inr [10, 10, 10]"
    "snd (read_timing ?w (path ?w (?argv ! 2))) = Inr [10, 10, 10]"
    "snd (read_timing ?w (path ?w (?argv ! 3))) = Inr [8, 12, 11]"
    "snd (read_timing ?w (path ?w (?argv ! 4))) = Inr [9, lit 12.5, 11]"
    by (simp_all add: ex_reads ex_path)
  have z: "zip (fastest [10, 10, 10] [10, 10, 10]) (fastest [8, 12, 11] [9, lit 12.5, 11]) = ?ps"
  proof -
    have "\<not> 9 < (8 :: real)" "\<not> lit 12.5 < 12" by code_simp+
    then show ?thesis by (simp add: fastest_def py_min_def)
  qed
  have ne: "?ps \<noteq> []" and nz: "\<forall>p\<in>set ?ps. fst p \<noteq> 0" by simp_all
  from summary_prints_last_ratio [OF l z ne nz] obtain a'
    where a': "snd (loop init_acc ?ps) = Inr a'"
      and t: "fst (main ?w ?argv) =
       [Print (Reading (path ?w (?argv ! 1))), Print (Reading (path ?w (?argv ! 2))),
        Print (Reading (path ?w (?argv ! 3))), Print (Reading (path ?w (?argv ! 4)))] @
       map (\<lambda>(i, b, l). Print (RecordLine i (Fixed 3 (fdiv l b)) (Fixed 3 b) (Fixed 3 l)))
         (enumerate 0 ?ps) @
       [Print (AverageLine (Fixed 3 (fdiv (snd (last ?ps)) (fst (last ?ps))))
                           (Fixed 3 (fdiv (snd (last ?ps)) (fst (last ?ps))))
                           (Fixed 3 (fdiv (snd (last ?ps)) (fst (last ?ps))))),
        Print (TotalLine (Repr (foldl fadd 0 (map fst ?ps))) (Repr (foldl fadd 0 (map snd ?ps))))] @
       fst (notify ?w a' (mean_perc_str_of (fdiv (total_rel_dur a') (float_of_nat (n a'))))
              (?argv ! 5) (if 7 \<le> length ?argv then ?argv ! 6 else []))"
    by blast
  from a' h have "a' = a" by simp
  with t have 1: "fst (main ?w ?argv) =
     [Print (Reading ''base_a''), Print (Reading ''base_a''),
      Print (Reading ''latest_a1''), Print (Reading ''latest_a2''),
      Print (RecordLine 0 (Fixed 3 (fdiv 8 10)) (Fixed 3 10) (Fixed 3 8)),
      Print (RecordLine 1 (Fixed 3 (fdiv 12 10)) (Fixed 3 10) (Fixed 3 12)),
      Print (RecordLine 2 (Fixed 3 (fdiv 11 10)) (Fixed 3 10) (Fixed 3 11)),
      Print (AverageLine (Fixed 3 (fdiv 11 10)) (Fixed 3 (fdiv 11 10)) (Fixed 3 (fdiv 11 10))),
      Print (TotalLine (Repr 30) (Repr 31)),
      Print (SendingLine
        [Speedup 0 (Fixed 1 (fmul 100 (fsub (fdiv 8 10) 1))),
         Slowdown 1 (Fixed 1 (fmul 100 (fsub (fdiv 12 10) 1))),
         Summary 3 (Slower (Fixed 1 (fmul 100 (fsub ?mean 1)))),
         Footer])]"
    using s by (simp add: fa notify_no_pr mean_perc_str_of_def enumerate_eq_zip ex_path Let_def)
  have 2: "mean_of a = Inr ?mean"
    by (simp add: mean_of_def fa)
  from 1 d(10) fa(4,5) 2 d(8,9) s(4) show ?thesis
    unfolding a_def
    apply -
    apply (intro conjI)
           apply assumption+
    done
qed

subsection \<open>The verdict comes last\<close>

text \<open>
  C5.  A run that ends in a regression verdict (one of the two final assertions fails)
  has done everything else before: the four files were read, every record line and the
  two summary lines were printed, and the notification step ran to its end without
  raising (the report was printed and, with a pull-request identifier, posted and
  echoed).  Nothing follows the assertions, so its output is the complete output.
\<close>

theorem regression_fails_after_output:
  assumes "snd (main w argv) = Inl AssertionError"
  shows "\<exists>b1 b2 l1 l2 a.
     6 \<le> length argv \<and>
     snd (read_timing w (path w (argv ! 1))) = Inr b1 \<and> snd (read_timing w (path w (argv ! 2))) = Inr b2 \<and>
     snd (read_timing w (path w (argv ! 3))) = Inr l1 \<and> snd (read_timing w (path w (argv ! 4))) = Inr l2 \<and>
     zip (fastest b1 b2) (fastest l1 l2) \<noteq> [] \<and>
     snd (loop init_acc (zip (fastest b1 b2) (fastest l1 l2))) = Inr a \<and>
     \<not> (errors a = 0 \<and> fdiv (total_rel_dur a) (float_of_nat (n a)) < lit 1.06) \<and>
     snd (notify w a (mean_perc_str_of (fdiv (total_rel_dur a) (float_of_nat (n a)))) (argv ! 5)
            (if 7 \<le> length argv then argv ! 6 else [])) = Inr () \<and>
     fst (main w argv) =
       [Print (Reading (path w (argv ! 1))), Print (Reading (path w (argv ! 2))),
        Print (Reading (path w (argv ! 3))), Print (Reading (path w (argv ! 4)))] @
       map (\<lambda>(i, b, l). Print (RecordLine i (Fixed 3 (fdiv l b)) (Fixed 3 b) (Fixed 3 l)))
         (enumerate 0 (zip (fastest b1 b2) (fastest l1 l2))) @
       [Print (AverageLine
                 (Fixed 3 (fdiv (snd (last (zip (fastest b1 b2) (fastest l1 l2))))
                                (fst (last (zip (fastest b1 b2) (fastest l1 l2))))))
                 (Fixed 3 (fdiv (snd (last (zip (fastest b1 b2) (fastest l1 l2))))
                                (fst (last (zip (fastest b1 b2) (fastest l1 l2))))))
                 (Fixed 3 (fdiv (snd (last (zip (fastest b1 b2) (fastest l1 l2))))
                                (fst (last (zip (fastest b1 b2) (fastest l1 l2))))))),
        Print (TotalLine (Repr (total_baseline a)) (Repr (total_latest a)))] @
       (if messages a = [] then []
        else Print (SendingLine (messages a @
                      [Summary (n a) (mean_perc_str_of (fdiv (total_rel_dur a) (float_of_nat (n a)))),
                       Footer])) #
             (if 7 \<le> length argv \<and> argv ! 6 \<noteq> []
              then [HttpPost
                      \<lparr> url = ''https://api.github.com/repos/returntocorp/semgrep/issues/''
                                @ argv ! 6 @ ''/comments'',
                        authorization = ''Token '' @ argv ! 5,
                        accept = ''application/vnd.github.comfort-fade-preview+json'',
                        body = messages a @
                          [Summary (n a) (mean_perc_str_of (fdiv (total_rel_dur a) (float_of_nat (n a)))),
                           Footer],
                        commit_id = the (event_sha w) \<rparr>,
                    Print (MessageLine (messages a @
                      [Summary (n a) (mean_perc_str_of (fdiv (total_rel_dur a) (float_of_nat (n a)))),
                       Footer]))]
              else []))"
proof -
  from main_result_cases [of argv w] assms obtain b1 b2 l1 l2
    where len: "6 \<le> length argv"
      and r: "snd (read_timing w (path w (argv ! 1))) = Inr b1" "snd (read_timing w (path w (argv ! 2))) = Inr b2"
        "snd (read_timing w (path w (argv ! 3))) = Inr l1" "snd (read_timing w (path w (argv ! 4))) = Inr l2"
    by auto
  define ps where "ps = zip (fastest b1 b2) (fastest l1 l2)"
  define pr where "pr = (if 7 \<le> length argv then argv ! 6 else [])"
  note m = main_loaded [OF len r, folded ps_def pr_def]
  from assms m have c: "snd (compare w (fastest b1 b2) (fastest l1 l2) (argv ! 5) pr)
                          = Inl AssertionError"
    by simp
  have ne: "ps \<noteq> []"
    using c compare_empty [of "fastest b1 b2" "fastest l1 l2" w "argv ! 5" pr]
    by (auto simp: ps_def)
  obtain a where a: "snd (loop init_acc ps) = Inr a"
  proof (cases "snd (loop init_acc ps)")
    case (Inl e)
    from compare_loop_error [of "fastest b1 b2" "fastest l1 l2" e w "argv ! 5" pr] Inl
      loop_error [OF Inl] c
    show ?thesis by (simp add: ps_def)
  next
    case (Inr a)
    then show ?thesis using that by blast
  qed
  define s where "s = mean_perc_str_of (fdiv (total_rel_dur a) (float_of_nat (n a)))"
  note co = compare_ok [OF a [unfolded ps_def] ne [unfolded ps_def], of w "argv ! 5" pr,
      folded ps_def s_def]
  from c co have nt: "snd (notify w a s (argv ! 5) pr) = Inr ()"
    and verdict: "\<not> (errors a = 0 \<and> fdiv (total_rel_dur a) (float_of_nat (n a)) < lit 1.06)"
    using notify_not_assertion [of w a s "argv ! 5" pr]
    by (auto split: sum.splits if_splits)
  have ntrace: "fst (notify w a s (argv ! 5) pr) =
       (if messages a = [] then []
        else Print (SendingLine (messages a @ [Summary (n a) s, Footer])) #
             (if 7 \<le> length argv \<and> argv ! 6 \<noteq> []
              then [HttpPost
                      \<lparr> url = ''https://api.github.com/repos/returntocorp/semgrep/issues/''
                                @ argv ! 6 @ ''/comments'',
                        authorization = ''Token '' @ argv ! 5,
                        accept = ''application/vnd.github.comfort-fade-preview+json'',
                        body = messages a @ [Summary (n a) s, Footer],
                        commit_id = the (event_sha w) \<rparr>,
                    Print (MessageLine (messages a @ [Summary (n a) s, Footer]))]
              else []))"
  proof (cases "messages a = []")
    case True
    then show ?thesis by (simp add: notify_fst)
  next
    case False
    with nt have sc: "snd (send_comment w (messages a @ [Summary (n a) s, Footer]) (argv ! 5) pr)
                        = Inr ()"
      by (simp add: notify_snd)
    show ?thesis
    proof (cases "pr = []")
      case True
      then have "\<not> (7 \<le> length argv \<and> argv ! 6 \<noteq> [])" by (auto simp: pr_def)
      with True False show ?thesis by (simp add: notify_fst send_comment_no_pr)
    next
      case nonempty: False
      then have p: "7 \<le> length argv \<and> argv ! 6 \<noteq> []" "pr = argv ! 6"
        by (auto simp: pr_def split: if_splits)
      from send_comment_ok [OF sc nonempty] False p show ?thesis
        by (auto simp: notify_fst)
    qed
  qed
  have "fst (main w argv) =
       [Print (Reading (path w (argv ! 1))), Print (Reading (path w (argv ! 2))),
        Print (Reading (path w (argv ! 3))), Print (Reading (path w (argv ! 4)))] @
       map (\<lambda>(i, b, l). Print (RecordLine i (Fixed 3 (fdiv l b)) (Fixed 3 b) (Fixed 3 l)))
         (enumerate 0 ps) @
       [Print (AverageLine (Fixed 3 (fdiv (snd (last ps)) (fst (last ps))))
                 (Fixed 3 (fdiv (snd (last ps)) (fst (last ps))))
                 (Fixed 3 (fdiv (snd (last ps)) (fst (last ps))))),
        Print (TotalLine (Repr (total_baseline a)) (Repr (total_latest a)))] @
       fst (notify w a s (argv ! 5) pr)"
    unfolding m co using loop_trace [OF a] by simp
  then have full: "fst (main w argv) =
       [Print (Reading (path w (argv ! 1))), Print (Reading (path w (argv ! 2))),
        Print (Reading (path w (argv ! 3))), Print (Reading (path w (argv ! 4)))] @
       map (\<lambda>(i, b, l). Print (RecordLine i (Fixed 3 (fdiv l b)) (Fixed 3 b) (Fixed 3 l)))
         (enumerate 0 ps) @
       [Print (AverageLine (Fixed 3 (fdiv (snd (last ps)) (fst (last ps))))
                 (Fixed 3 (fdiv (snd (last ps)) (fst (last ps))))
                 (Fixed 3 (fdiv (snd (last ps)) (fst (last ps))))),
        Print (TotalLine (Repr (total_baseline a)) (Repr (total_latest a)))] @
       (if messages a = [] then []
        else Print (SendingLine (messages a @ [Summary (n a) s, Footer])) #
             (if 7 \<le> length argv \<and> argv ! 6 \<noteq> []
              then [HttpPost
                      \<lparr> url = ''https://api.github.com/repos/returntocorp/semgrep/issues/''
                                @ argv ! 6 @ ''/comments'',
                        authorization = ''Token '' @ argv ! 5,
                        accept = ''application/vnd.github.comfort-fade-preview+json'',
                        body = messages a @ [Summary (n a) s, Footer],
                        commit_id = the (event_sha w) \<rparr>,
                    Print (MessageLine (messages a @ [Summary (n a) s, Footer]))]
              else []))"
    unfolding ntrace .
  from len r ne a verdict nt full show ?thesis
    unfolding ps_def pr_def s_def
    apply -
    apply (intro exI conjI)
             apply assumption+
    done
qed

text \<open>A per-item regression with a pull-request identifier and an endpoint that
  answers 201: the whole report is printed, posted and echoed before the run fails.\<close>

theorem regression_fails_after_output_witness:
  "snd (main (example_world 201)
     [''compare_perf.py'', ''base_b'', ''base_b'', ''latest_b'', ''latest_b'', ''token'', ''7''])
   = Inl AssertionError \<and>
   fst (main (example_world 201)
     [''compare_perf.py'', ''base_b'', ''base_b'', ''latest_b'', ''latest_b'', ''token'', ''7''])
   = [Print (Reading ''base_b''), Print (Reading ''base_b''),
      Print (Reading ''latest_b''), Print (Reading ''latest_b''),
      Print (RecordLine 0 (Fixed 3 (fdiv 121 100)) (Fixed 3 100) (Fixed 3 121)),
      Print (RecordLine 1 (Fixed 3 (fdiv (lit 1.3) 1)) (Fixed 3 1) (Fixed 3 (lit 1.3))),
      Print (AverageLine (Fixed 3 (fdiv (lit 1.3) 1)) (Fixed 3 (fdiv (lit 1.3) 1))
               (Fixed 3 (fdiv (lit 1.3) 1))),
      Print (TotalLine (Repr (fadd (fadd 0 100) 1)) (Repr (fadd (fadd 0 121) (lit 1.3)))),
      Print (SendingLine
        [TooSlow 0 (Fixed 1 (fmul 100 (fsub (fdiv 121 100) 1))),
         Slowdown 1 (Fixed 1 (fmul 100 (fsub (fdiv (lit 1.3) 1) 1))),
         Summary 2 (Slower (Fixed 1 (fmul 100 (fsub
           (fdiv (fadd (fadd 0 (fdiv 121 100)) (fdiv (lit 1.3) 1)) (float_of_nat 2)) 1)))),
         Footer]),
      HttpPost \<lparr> url = ''https://api.github.com/repos/returntocorp/semgrep/issues/7/comments'',
                 authorization = ''Token token'',
                 accept = ''application/vnd.github.comfort-fade-preview+json'',
                 body =
        [TooSlow 0 (Fixed 1 (fmul 100 (fsub (fdiv 121 100) 1))),
         Slowdown 1 (Fixed 1 (fmul 100 (fsub (fdiv (lit 1.3) 1) 1))),
         Summary 2 (Slower (Fixed 1 (fmul 100 (fsub
           (fdiv (fadd (fadd 0 (fdiv 121 100)) (fdiv (lit 1.3) 1)) (float_of_nat 2)) 1)))),
         Footer],
                 commit_id = ''c0ffee'' \<rparr>,
      Print (MessageLine
        [TooSlow 0 (Fixed 1 (fmul 100 (fsub (fdiv 121 100) 1))),
         Slowdown 1 (Fixed 1 (fmul 100 (fsub (fdiv (lit 1.3) 1) 1))),
         Summary 2 (Slower (Fixed 1 (fmul 100 (fsub
           (fdiv (fadd (fadd 0 (fdiv 121 100)) (fdiv (lit 1.3) 1)) (float_of_nat 2)) 1)))),
         Footer])]"
proof -
  let ?w = "example_world 201"
  let ?argv = "[''compare_perf.py'', ''base_b'', ''base_b'', ''latest_b'', ''latest_b'',
                ''token'', ''7'']"
  have l: "(6 :: nat) \<le> length ?argv"
    "snd (read_timing ?w (path ?w (?argv ! 1))) = Inr [100, 1]"
    "snd (read_timing ?w (path ?w (?argv ! 2))) = Inr [100, 1]"
    "snd (read_timing ?w (path ?w (?argv ! 3))) = Inr [121, lit 1.3]"
    "snd (read_timing ?w (path ?w (?argv ! 4))) = Inr [121, lit 1.3]"
    by (simp_all add: ex_reads ex_path)
  have z: "zip (fastest [100, 1] [100, 1]) (fastest [121, lit 1.3] [121, lit 1.3])
             = [(100, 121), (1, lit 1.3)]"
    by (simp add: fastest_def py_min_def)
  note h = ex_loop_b [folded z]
  have ne: "zip (fastest [100, 1] [100, 1]) (fastest [121, lit 1.3] [121, lit 1.3]) \<noteq> []"
    unfolding z by simp
  have tr: "fst (loop init_acc [(100, 121), (1, lit 1.3)]) =
     [Print (RecordLine 0 (Fixed 3 (fdiv 121 100)) (Fixed 3 100) (Fixed 3 121)),
      Print (RecordLine 1 (Fixed 3 (fdiv (lit 1.3) 1)) (Fixed 3 1) (Fixed 3 (lit 1.3)))]"
    using loop_trace [OF ex_loop_b] by (simp add: enumerate_eq_zip)
  have m: "main ?w ?argv =
    ([Print (Reading ''base_b''), Print (Reading ''base_b''),
      Print (Reading ''latest_b''), Print (Reading ''latest_b''),
      Print (RecordLine 0 (Fixed 3 (fdiv 121 100)) (Fixed 3 100) (Fixed 3 121)),
      Print (RecordLine 1 (Fixed 3 (fdiv (lit 1.3) 1)) (Fixed 3 1) (Fixed 3 (lit 1.3))),
      Print (AverageLine (Fixed 3 (fdiv (lit 1.3) 1)) (Fixed 3 (fdiv (lit 1.3) 1))
               (Fixed 3 (fdiv (lit 1.3) 1))),
      Print (TotalLine (Repr (fadd (fadd 0 100) 1)) (Repr (fadd (fadd 0 121) (lit 1.3)))),
      Print (SendingLine
        [TooSlow 0 (Fixed 1 (fmul 100 (fsub (fdiv 121 100) 1))),
         Slowdown 1 (Fixed 1 (fmul 100 (fsub (fdiv (lit 1.3) 1) 1))),
         Summary 2 (Slower (Fixed 1 (fmul 100 (fsub
           (fdiv (fadd (fadd 0 (fdiv 121 100)) (fdiv (lit 1.3) 1)) (float_of_nat 2)) 1)))),
         Footer]),
      HttpPost \<lparr> url = ''https://api.github.com/repos/returntocorp/semgrep/issues/7/comments'',
                 authorization = ''Token token'',
                 accept = ''application/vnd.github.comfort-fade-preview+json'',
                 body =
        [TooSlow 0 (Fixed 1 (fmul 100 (fsub (fdiv 121 100) 1))),
         Slowdown 1 (Fixed 1 (fmul 100 (fsub (fdiv (lit 1.3) 1) 1))),
         Summary 2 (Slower (Fixed 1 (fmul 100 (fsub
           (fdiv (fadd (fadd 0 (fdiv 121 100)) (fdiv (lit 1.3) 1)) (float_of_nat 2)) 1)))),
         Footer],
                 commit_id = ''c0ffee'' \<rparr>,
      Print (MessageLine
        [TooSlow 0 (Fixed 1 (fmul 100 (fsub (fdiv 121 100) 1))),
         Slowdown 1 (Fixed 1 (fmul 100 (fsub (fdiv (lit 1.3) 1) 1))),
         Summary 2 (Slower (Fixed 1 (fmul 100 (fsub
           (fdiv (fadd (fadd 0 (fdiv 121 100)) (fdiv (lit 1.3) 1)) (float_of_nat 2)) 1)))),
         Footer])],
     Inl AssertionError)"
    unfolding main_loaded [OF l] compare_ok [OF h ne] z tr
    using ex_mean_b
    by (simp add: notify_def send_comment_def example_world_def Let_def mean_perc_str_of_def
          print_io_def return_io_def)
  have 1: "snd (main ?w ?argv) = Inl AssertionError"
    unfolding m by simp
  note t = regression_fails_after_output [OF 1]
  from t 1 m show ?thesis by simp
qed

subsection \<open>Runs without a pull-request identifier\<close>

text \<open>
  C7.  When the pull-request identifier is the empty string (the sixth argument is
  absent or empty), no HTTP request is made, whatever messages were produced; the run
  does not depend on the event payload or on the endpoint; and its outcome is decided by
  the thresholds alone: it succeeds exactly when the files load, the comparison yields
  an error count of zero and a mean ratio below 1.06, and it fails by assertion exactly
  when the comparison yields a positive error count or a mean ratio that is not below
  1.06.  The mean ratio is the float the script computes, 1.06 the float of that
  literal.
\<close>

theorem no_pull_request_no_http_call:
  assumes "length argv < 7 \<or> argv ! 6 = []"
  shows "(\<forall>req. HttpPost req \<notin> set (fst (main w argv))) \<and>
    main (w\<lparr> event_sha := sha, post := answer \<rparr>) argv = main w argv \<and>
    (snd (main w argv) = Inr () \<longleftrightarrow>
       (\<exists>b1 b2 l1 l2 a.
          6 \<le> length argv \<and>
          snd (read_timing w (path w (argv ! 1))) = Inr b1 \<and> snd (read_timing w (path w (argv ! 2))) = Inr b2 \<and>
          snd (read_timing w (path w (argv ! 3))) = Inr l1 \<and> snd (read_timing w (path w (argv ! 4))) = Inr l2 \<and>
          zip (fastest b1 b2) (fastest l1 l2) \<noteq> [] \<and>
          snd (loop init_acc (zip (fastest b1 b2) (fastest l1 l2))) = Inr a \<and>
          errors a = 0 \<and> fdiv (total_rel_dur a) (float_of_nat (n a)) < lit 1.06)) \<and>
    (snd (main w argv) = Inl AssertionError \<longleftrightarrow>
       (\<exists>b1 b2 l1 l2 a.
          6 \<le> length argv \<and>
          snd (read_timing w (path w (argv ! 1))) = Inr b1 \<and> snd (read_timing w (path w (argv ! 2))) = Inr b2 \<and>
          snd (read_timing w (path w (argv ! 3))) = Inr l1 \<and> snd (read_timing w (path w (argv ! 4))) = Inr l2 \<and>
          zip (fastest b1 b2) (fastest l1 l2) \<noteq> [] \<and>
          snd (loop init_acc (zip (fastest b1 b2) (fastest l1 l2))) = Inr a \<and>
          \<not> (errors a = 0 \<and> fdiv (total_rel_dur a) (float_of_nat (n a)) < lit 1.06)))"
proof -
  from assms have pr: "(if 7 \<le> length argv then argv ! 6 else []) = []" by auto
  have verdict: "snd (main w argv) =
      (if errors a = 0 \<and> fdiv (total_rel_dur a) (float_of_nat (n a)) < lit 1.06 then Inr ()
       else Inl AssertionError)"
    if "6 \<le> length argv"
      and "snd (read_timing w (path w (argv ! 1))) = Inr b1" and "snd (read_timing w (path w (argv ! 2))) = Inr b2"
      and "snd (read_timing w (path w (argv ! 3))) = Inr l1" and "snd (read_timing w (path w (argv ! 4))) = Inr l2"
      and "zip (fastest b1 b2) (fastest l1 l2) \<noteq> []"
      and "snd (loop init_acc (zip (fastest b1 b2) (fastest l1 l2))) = Inr a"
    for b1 b2 l1 l2 a
    unfolding main_verdict [OF that] pr by (simp add: notify_no_pr)
  have 1: "\<forall>req. HttpPost req \<notin> set (fst (main w argv))"
    using main_no_pr_no_post [OF assms] by blast
  have 2: "main (w\<lparr> event_sha := sha, post := answer \<rparr>) argv = main w argv"
    by (rule main_no_pr_world [OF assms]) simp_all
  have 3: "snd (main w argv) = Inr () \<longleftrightarrow>
       (\<exists>b1 b2 l1 l2 a.
          6 \<le> length argv \<and>
          snd (read_timing w (path w (argv ! 1))) = Inr b1 \<and> snd (read_timing w (path w (argv ! 2))) = Inr b2 \<and>
          snd (read_timing w (path w (argv ! 3))) = Inr l1 \<and> snd (read_timing w (path w (argv ! 4))) = Inr l2 \<and>
          zip (fastest b1 b2) (fastest l1 l2) \<noteq> [] \<and>
          snd (loop init_acc (zip (fastest b1 b2) (fastest l1 l2))) = Inr a \<and>
          errors a = 0 \<and> fdiv (total_rel_dur a) (float_of_nat (n a)) < lit 1.06)" (is "?L \<longleftrightarrow> ?R")
  proof
    assume l: ?L
    then have "snd (main w argv) = Inr () \<or> snd (main w argv) = Inl AssertionError" by simp
    from main_reaches_verdict [OF this] obtain b1 b2 l1 l2 a where
      h: "6 \<le> length argv"
        "snd (read_timing w (path w (argv ! 1))) = Inr b1" "snd (read_timing w (path w (argv ! 2))) = Inr b2"
        "snd (read_timing w (path w (argv ! 3))) = Inr l1" "snd (read_timing w (path w (argv ! 4))) = Inr l2"
        "zip (fastest b1 b2) (fastest l1 l2) \<noteq> []"
        "snd (loop init_acc (zip (fastest b1 b2) (fastest l1 l2))) = Inr a"
      by blast
    from verdict [OF h] l have "errors a = 0 \<and> fdiv (total_rel_dur a) (float_of_nat (n a)) < lit 1.06"
      by (simp split: if_splits)
    with h show ?R by blast
  next
    assume ?R
    then obtain b1 b2 l1 l2 a where
      h: "6 \<le> length argv"
        "snd (read_timing w (path w (argv ! 1))) = Inr b1" "snd (read_timing w (path w (argv ! 2))) = Inr b2"
        "snd (read_timing w (path w (argv ! 3))) = Inr l1" "snd (read_timing w (path w (argv ! 4))) = Inr l2"
        "zip (fastest b1 b2) (fastest l1 l2) \<noteq> []"
        "snd (loop init_acc (zip (fastest b1 b2) (fastest l1 l2))) = Inr a"
      and ok: "errors a = 0 \<and> fdiv (total_rel_dur a) (float_of_nat (n a)) < lit 1.06"
      by blast
    from verdict [OF h] ok show ?L by simp
  qed
  have 4: "snd (main w argv) = Inl AssertionError \<longleftrightarrow>
       (\<exists>b1 b2 l1 l2 a.
          6 \<le> length argv \<and>
          snd (read_timing w (path w (argv ! 1))) = Inr b1 \<and> snd (read_timing w (path w (argv ! 2))) = Inr b2 \<and>
          snd (read_timing w (path w (argv ! 3))) = Inr l1 \<and> snd (read_timing w (path w (argv ! 4))) = Inr l2 \<and>
          zip (fastest b1 b2) (fastest l1 l2) \<noteq> [] \<and>
          snd (loop init_acc (zip (fastest b1 b2) (fastest l1 l2))) = Inr a \<and>
          \<not> (errors a = 0 \<and> fdiv (total_rel_dur a) (float_of_nat (n a)) < lit 1.06))" (is "?L \<longleftrightarrow> ?R")
  proof
    assume l: ?L
    then have "snd (main w argv) = Inr () \<or> snd (main w argv) = Inl AssertionError" by simp
    from main_reaches_verdict [OF this] obtain b1 b2 l1 l2 a where
      h: "6 \<le> length argv"
        "snd (read_timing w (path w (argv ! 1))) = Inr b1" "snd (read_timing w (path w (argv ! 2))) = Inr b2"
        "snd (read_timing w (path w (argv ! 3))) = Inr l1" "snd (read_timing w (path w (argv ! 4))) = Inr l2"
        "zip (fastest b1 b2) (fastest l1 l2) \<noteq> []"
        "snd (loop init_acc (zip (fastest b1 b2) (fastest l1 l2))) = Inr a"
      by blast
    from verdict [OF h] l have "\<not> (errors a = 0 \<and> fdiv (total_rel_dur a) (float_of_nat (n a)) < lit 1.06)"
      by (simp split: if_splits)
    with h show ?R by blast
  next
    assume ?R
    then obtain b1 b2 l1 l2 a where
      h: "6 \<le> length argv"
        "snd (read_timing w (path w (argv ! 1))) = Inr b1" "snd (read_timing w (path w (argv ! 2))) = Inr b2"
        "snd (read_timing w (path w (argv ! 3))) = Inr l1" "snd (read_timing w (path w (argv ! 4))) = Inr l2"
        "zip (fastest b1 b2) (fastest l1 l2) \<noteq> []"
        "snd (loop init_acc (zip (fastest b1 b2) (fastest l1 l2))) = Inr a"
      and bad: "\<not> (errors a = 0 \<and> fdiv (total_rel_dur a) (float_of_nat (n a)) < lit 1.06)"
      by blast
    from verdict [OF h] bad show ?L by simp
  qed
  from 1 2 3 4 show ?thesis by (intro conjI)
qed

text \<open>Two runs with an empty pull-request identifier.  The first has a hard regression
  and a warning: the report is printed, \<open>send_comment\<close> returns at once, nothing is
  posted although the endpoint would answer 500, and the run fails by assertion; the
  same run without event payload and without endpoint is the same.  The second, baseline
  \<open>1 1 1\<close> and latest \<open>1 1.09 1.09\<close>, crosses no threshold and succeeds.\<close>

theorem no_pull_request_no_http_call_witness:
  "main (example_world 500)
     [''compare_perf.py'', ''base_b'', ''base_b'', ''latest_b'', ''latest_b'', ''token'', []] =
    ([Print (Reading ''base_b''), Print (Reading ''base_b''),
      Print (Reading ''latest_b''), Print (Reading ''latest_b''),
      Print (RecordLine 0 (Fixed 3 (fdiv 121 100)) (Fixed 3 100) (Fixed 3 121)),
      Print (RecordLine 1 (Fixed 3 (fdiv (lit 1.3) 1)) (Fixed 3 1) (Fixed 3 (lit 1.3))),
      Print (AverageLine (Fixed 3 (fdiv (lit 1.3) 1)) (Fixed 3 (fdiv (lit 1.3) 1))
               (Fixed 3 (fdiv (lit 1.3) 1))),
      Print (TotalLine (Repr (fadd (fadd 0 100) 1)) (Repr (fadd (fadd 0 121) (lit 1.3)))),
      Print (SendingLine
        [TooSlow 0 (Fixed 1 (fmul 100 (fsub (fdiv 121 100) 1))),
         Slowdown 1 (Fixed 1 (fmul 100 (fsub (fdiv (lit 1.3) 1) 1))),
         Summary 2 (Slower (Fixed 1 (fmul 100 (fsub
           (fdiv (fadd (fadd 0 (fdiv 121 100)) (fdiv (lit 1.3) 1)) (float_of_nat 2)) 1)))),
         Footer])],
     Inl AssertionError) \<and>
   main ((example_world 500)\<lparr> event_sha := None, post := (\<lambda>_. None) \<rparr>)
     [''compare_perf.py'', ''base_b'', ''base_b'', ''latest_b'', ''latest_b'', ''token'', []]
     = main (example_world 500)
     [''compare_perf.py'', ''base_b'', ''base_b'', ''latest_b'', ''latest_b'', ''token'', []] \<and>
   snd (main (example_world 500)
     [''compare_perf.py'', ''base_e'', ''base_e'', ''latest_e'', ''latest_e'', ''token''])
     = Inr ()"
proof -
  let ?w = "example_world 500"
  let ?argv = "[''compare_perf.py'', ''base_b'', ''base_b'', ''latest_b'', ''latest_b'',
                ''token'', []]"
  have hyp: "length ?argv < 7 \<or> ?argv ! 6 = []" by simp
  note t = no_pull_request_no_http_call
    [OF hyp, where w = ?w and sha = None and answer = "\<lambda>_. None"]
  have l: "(6 :: nat) \<le> length ?argv"
    "snd (read_timing ?w (path ?w (?argv ! 1))) = Inr [100, 1]"
    "snd (read_timing ?w (path ?w (?argv ! 2))) = Inr [100, 1]"
    "snd (read_timing ?w (path ?w (?argv ! 3))) = Inr [121, lit 1.3]"
    "snd (read_timing ?w (path ?w (?argv ! 4))) = Inr [121, lit 1.3]"
    by (simp_all add: ex_reads ex_path)
  have z: "zip (fastest [100, 1] [100, 1]) (fastest [121, lit 1.3] [121, lit 1.3])
             = [(100, 121), (1, lit 1.3)]"
    by (simp add: fastest_def py_min_def)
  note h = ex_loop_b [folded z]
  have ne: "zip (fastest [100, 1] [100, 1]) (fastest [121, lit 1.3] [121, lit 1.3]) \<noteq> []"
    unfolding z by simp
  have tr: "fst (loop init_acc [(100, 121), (1, lit 1.3)]) =
     [Print (RecordLine 0 (Fixed 3 (fdiv 121 100)) (Fixed 3 100) (Fixed 3 121)),
      Print (RecordLine 1 (Fixed 3 (fdiv (lit 1.3) 1)) (Fixed 3 1) (Fixed 3 (lit 1.3)))]"
    using loop_trace [OF ex_loop_b] by (simp add: enumerate_eq_zip)
  have 1: "main ?w ?argv =
    ([Print (Reading ''base_b''), Print (Reading ''base_b''),
      Print (Reading ''latest_b''), Print (Reading ''latest_b''),
      Print (RecordLine 0 (Fixed 3 (fdiv 121 100)) (Fixed 3 100) (Fixed 3 121)),
      Print (RecordLine 1 (Fixed 3 (fdiv (lit 1.3) 1)) (Fixed 3 1) (Fixed 3 (lit 1.3))),
      Print (AverageLine (Fixed 3 (fdiv (lit 1.3) 1)) (Fixed 3 (fdiv (lit 1.3) 1))
               (Fixed 3 (fdiv (lit 1.3) 1))),
      Print (TotalLine (Repr (fadd (fadd 0 100) 1)) (Repr (fadd (fadd 0 121) (lit 1.3)))),
      Print (SendingLine
        [TooSlow 0 (Fixed 1 (fmul 100 (fsub (fdiv 121 100) 1))),
         Slowdown 1 (Fixed 1 (fmul 100 (fsub (fdiv (lit 1.3) 1) 1))),
         Summary 2 (Slower (Fixed 1 (fmul 100 (fsub
           (fdiv (fadd (fadd 0 (fdiv 121 100)) (fdiv (lit 1.3) 1)) (float_of_nat 2)) 1)))),
         Footer])],
     Inl AssertionError)"
    unfolding main_loaded [OF l] compare_ok [OF h ne] z tr
    using ex_mean_b
    by (simp add: notify_no_pr mean_perc_str_of_def Let_def ex_path)
  from t have 2: "main (?w\<lparr> event_sha := None, post := (\<lambda>_. None) \<rparr>) ?argv = main ?w ?argv"
    by blast
  have 3: "snd (main ?w [''compare_perf.py'', ''base_e'', ''base_e'', ''latest_e'', ''latest_e'',
                         ''token'']) = Inr ()"
    by (simp add: ex_main_e)
  from 1 2 3 show ?thesis
    apply -
    apply (intro conjI)
      apply assumption+
    done
qed

subsection \<open>The verdict\<close>

text \<open>
  C1 as stated (the run fails if and only if the error count is positive or the mean
  ratio is at least 1.06) does not hold: a run also fails when the notification step
  raises.  One benchmark, baseline 10 and latest 8, with a pull-request identifier and
  an endpoint that answers 500: the speedup message is posted, \<open>raise_for_status\<close>
  raises, and the run fails although the error count is 0 and the mean ratio, the
  float quotient of 8 and 10, is below the float 1.06.
\<close>

theorem fails_iff_thresholds_counterexample:
  "snd (main (example_world 500)
     [''compare_perf.py'', ''base_c'', ''base_c'', ''latest_c3'', ''latest_c3'', ''token'', ''7''])
     = Inl HTTPError \<and>
   snd (read_timing (example_world 500) ''base_c'') = Inr [10] \<and>
   snd (read_timing (example_world 500) ''latest_c3'') = Inr [8] \<and>
   snd (loop init_acc (zip (fastest [10] [10]) (fastest [8] [8]))) =
     Inr \<lparr> n = 1, total_baseline = fadd 0 10, total_latest = fadd 0 8,
           total_rel_dur = fadd 0 (fdiv 8 10),
           min_rel_dur = py_min 1 (fdiv 8 10), max_rel_dur = py_max 1 (fdiv 8 10),
           messages = [Speedup 0 (Fixed 1 (fmul 100 (fsub (fdiv 8 10) 1)))],
           errors = 0, rel_dur = Some (fdiv 8 10) \<rparr> \<and>
   mean_of \<lparr> n = 1, total_baseline = fadd 0 10, total_latest = fadd 0 8,
             total_rel_dur = fadd 0 (fdiv 8 10),
             min_rel_dur = py_min 1 (fdiv 8 10), max_rel_dur = py_max 1 (fdiv 8 10),
             messages = [Speedup 0 (Fixed 1 (fmul 100 (fsub (fdiv 8 10) 1)))],
             errors = 0, rel_dur = Some (fdiv 8 10) \<rparr>
     = Inr (fdiv (fadd 0 (fdiv 8 10)) (float_of_nat 1)) \<and>
   fdiv (fadd 0 (fdiv 8 10)) (float_of_nat 1) < lit 1.06 \<and>
   \<not> (snd (main (example_world 500)
          [''compare_perf.py'', ''base_c'', ''base_c'', ''latest_c3'', ''latest_c3'', ''token'',
           ''7'']) \<noteq> Inr ()
      \<longleftrightarrow> (0 :: nat) < 0 \<or> lit 1.06 \<le> fdiv (fadd 0 (fdiv 8 10)) (float_of_nat 1))"
proof -
  let ?w = "example_world 500"
  let ?argv = "[''compare_perf.py'', ''base_c'', ''base_c'', ''latest_c3'', ''latest_c3'',
                ''token'', ''7'']"
  let ?a = "\<lparr> n = 1, total_baseline = fadd 0 10, total_latest = fadd 0 8,
           total_rel_dur = fadd 0 (fdiv 8 10),
           min_rel_dur = py_min 1 (fdiv 8 10), max_rel_dur = py_max 1 (fdiv 8 10),
           messages = [Speedup 0 (Fixed 1 (fmul 100 (fsub (fdiv 8 10) 1)))],
           errors = 0, rel_dur = Some (fdiv 8 10) \<rparr>"
  have c: "\<not> fmul 10 (lit 1.2) < 8" "\<not> lit 1.1 < fdiv 8 10" "fdiv 8 10 < lit 0.9"
    "fdiv (fadd 0 (fdiv 8 10)) (float_of_nat 1) < lit 1.06"
    by code_simp+
  have l: "(6 :: nat) \<le> length ?argv"
    "snd (read_timing ?w (path ?w (?argv ! 1))) = Inr [10]"
    "snd (read_timing ?w (path ?w (?argv ! 2))) = Inr [10]"
    "snd (read_timing ?w (path ?w (?argv ! 3))) = Inr [8]"
    "snd (read_timing ?w (path ?w (?argv ! 4))) = Inr [8]"
    by (simp_all add: ex_reads ex_path)
  have z: "zip (fastest [10] [10]) (fastest [8] [8]) = [(10, 8)]"
    by (simp add: fastest_def py_min_def)
  have h: "snd (loop init_acc (zip (fastest [10] [10]) (fastest [8] [8]))) = Inr ?a"
    unfolding z using c
    by (simp add: init_acc_def loop_body_def Let_def return_io_def)
  have ne: "zip (fastest [10] [10]) (fastest [8] [8]) \<noteq> []"
    unfolding z by simp
  have m: "snd (main ?w ?argv) = Inl HTTPError"
    unfolding main_verdict [OF l ne h]
    by (simp add: notify_snd send_comment_def example_world_def Let_def)
  have mo: "mean_of ?a = Inr (fdiv (fadd 0 (fdiv 8 10)) (float_of_nat 1))"
    by (simp add: mean_of_def)
  from m h mo c(4) show ?thesis by (simp add: ex_reads)
qed

text \<open>
  C1, amended.  For a run whose four files load and whose comparison loop completes on
  at least one benchmark: if the error count is positive or the mean ratio is at least
  1.06, the run fails (also when no single benchmark is a hard regression); the run
  succeeds exactly when the error count is zero, the mean ratio is below 1.06 and the
  notification step has raised nothing; and when the notification step has raised
  nothing, the run fails by assertion exactly when the error count is positive or the
  mean ratio is at least 1.06.  The mean ratio is the float sum of the float ratios
  divided by their number, as the script computes it, 1.06 is the float of that
  literal, and the error count is the number of hard regressions.
\<close>

theorem fails_when_thresholds_crossed:
  assumes "6 \<le> length argv"
    and "snd (read_timing w (path w (argv ! 1))) = Inr b1"
    and "snd (read_timing w (path w (argv ! 2))) = Inr b2"
    and "snd (read_timing w (path w (argv ! 3))) = Inr l1"
    and "snd (read_timing w (path w (argv ! 4))) = Inr l2"
    and "zip (fastest b1 b2) (fastest l1 l2) \<noteq> []"
    and "snd (loop init_acc (zip (fastest b1 b2) (fastest l1 l2))) = Inr a"
  shows "(0 < errors a \<or> lit 1.06 \<le> fdiv (total_rel_dur a) (float_of_nat (n a)) \<longrightarrow>
            snd (main w argv) \<noteq> Inr ()) \<and>
    (snd (main w argv) = Inr () \<longleftrightarrow>
       errors a = 0 \<and> fdiv (total_rel_dur a) (float_of_nat (n a)) < lit 1.06 \<and>
       snd (notify w a (mean_perc_str_of (fdiv (total_rel_dur a) (float_of_nat (n a)))) (argv ! 5)
              (if 7 \<le> length argv then argv ! 6 else [])) = Inr ()) \<and>
    (snd (notify w a (mean_perc_str_of (fdiv (total_rel_dur a) (float_of_nat (n a)))) (argv ! 5)
              (if 7 \<le> length argv then argv ! 6 else [])) = Inr () \<longrightarrow>
       (snd (main w argv) = Inl AssertionError \<longleftrightarrow>
          0 < errors a \<or> lit 1.06 \<le> fdiv (total_rel_dur a) (float_of_nat (n a)))) \<and>
    fdiv (total_rel_dur a) (float_of_nat (n a)) =
      fdiv (foldl fadd 0 (map (\<lambda>(b, l). fdiv l b) (zip (fastest b1 b2) (fastest l1 l2))))
        (float_of_nat (length (zip (fastest b1 b2) (fastest l1 l2)))) \<and>
    errors a =
      length (filter (\<lambda>(b, l). l > fmul b (lit 1.2) \<and> fsub l b > 5.0) (zip (fastest b1 b2) (fastest l1 l2)))"
proof -
  note v = main_verdict [OF assms]
  have 1: "0 < errors a \<or> lit 1.06 \<le> fdiv (total_rel_dur a) (float_of_nat (n a)) \<longrightarrow>
            snd (main w argv) \<noteq> Inr ()"
    unfolding v by (auto split: sum.splits)
  have 2: "snd (main w argv) = Inr () \<longleftrightarrow>
       errors a = 0 \<and> fdiv (total_rel_dur a) (float_of_nat (n a)) < lit 1.06 \<and>
       snd (notify w a (mean_perc_str_of (fdiv (total_rel_dur a) (float_of_nat (n a)))) (argv ! 5)
              (if 7 \<le> length argv then argv ! 6 else [])) = Inr ()"
    unfolding v by (auto split: sum.splits)
  have 3: "snd (notify w a (mean_perc_str_of (fdiv (total_rel_dur a) (float_of_nat (n a)))) (argv ! 5)
              (if 7 \<le> length argv then argv ! 6 else [])) = Inr () \<longrightarrow>
       (snd (main w argv) = Inl AssertionError \<longleftrightarrow>
          0 < errors a \<or> lit 1.06 \<le> fdiv (total_rel_dur a) (float_of_nat (n a)))"
    unfolding v by (auto split: sum.splits)
  have 4: "fdiv (total_rel_dur a) (float_of_nat (n a)) =
      fdiv (foldl fadd 0 (map (\<lambda>(b, l). fdiv l b) (zip (fastest b1 b2) (fastest l1 l2))))
        (float_of_nat (length (zip (fastest b1 b2) (fastest l1 l2))))"
    using loop_sums [OF assms(7)] loop_n [OF assms(7)] by simp
  have 5: "errors a =
      length (filter (\<lambda>(b, l). l > fmul b (lit 1.2) \<and> fsub l b > 5.0) (zip (fastest b1 b2) (fastest l1 l2)))"
    using loop_sums [OF assms(7)] by simp
  from 1 2 3 4 5 show ?thesis by (intro conjI)
qed

text \<open>Two runs without a pull-request identifier.  An aggregate-only regression: two
  benchmarks, baseline 100 and latest 106.1 each; neither is a hard regression and
  there is no message at all, yet the float mean of the ratios is not below the float
  1.06 and the run fails.  And a run that crosses no threshold: baseline \<open>1 1 1\<close> and
  latest \<open>1 1.09 1.09\<close>; the float mean of the ratios is below the float 1.06 and
  the run succeeds.\<close>

theorem fails_when_thresholds_crossed_witness:
  "snd (main (example_world 201)
     [''compare_perf.py'', ''base_d'', ''base_d'', ''latest_d'', ''latest_d'', ''token''])
     = Inl AssertionError \<and>
   errors (projr (snd (loop init_acc [(100, lit 106.1), (100, lit 106.1)]))) = 0 \<and>
   messages (projr (snd (loop init_acc [(100, lit 106.1), (100, lit 106.1)]))) = [] \<and>
   lit 1.06 \<le> fdiv (fadd (fadd 0 (fdiv (lit 106.1) 100)) (fdiv (lit 106.1) 100)) (float_of_nat 2) \<and>
   snd (main (example_world 201)
     [''compare_perf.py'', ''base_e'', ''base_e'', ''latest_e'', ''latest_e'', ''token''])
     = Inr () \<and>
   fdiv (fadd (fadd (fadd 0 (fdiv 1 1)) (fdiv (lit 1.09) 1)) (fdiv (lit 1.09) 1)) (float_of_nat 3)
     < lit 1.06"
proof -
  let ?w = "example_world 201"
  let ?argv = "[''compare_perf.py'', ''base_d'', ''base_d'', ''latest_d'', ''latest_d'',
                ''token'']"
  let ?ps = "[(100, lit 106.1), (100, lit 106.1)] :: (real \<times> real) list"
  have c: "\<not> fmul 100 (lit 1.2) < lit 106.1" "\<not> lit 1.1 < fdiv (lit 106.1) 100"
    "\<not> fdiv (lit 106.1) 100 < lit 0.9"
    "lit 1.06 \<le> fdiv (fadd (fadd 0 (fdiv (lit 106.1) 100)) (fdiv (lit 106.1) 100)) (float_of_nat 2)"
    by code_simp+
  define a where "a = projr (snd (loop init_acc ?ps))"
  have h0: "snd (loop init_acc ?ps) = Inr a"
    unfolding a_def using c by (simp add: init_acc_def loop_body_def Let_def return_io_def)
  have fa: "n a = 2" "errors a = 0" "messages a = []"
    "total_rel_dur a = fadd (fadd 0 (fdiv (lit 106.1) 100)) (fdiv (lit 106.1) 100)"
    unfolding a_def using c
    by (simp_all add: init_acc_def loop_body_def Let_def return_io_def)
  have l: "(6 :: nat) \<le> length ?argv"
    "snd (read_timing ?w (path ?w (?argv ! 1))) = Inr [100, 100]"
    "snd (read_timing ?w (path ?w (?argv ! 2))) = Inr [100, 100]"
    "snd (read_timing ?w (path ?w (?argv ! 3))) = Inr [lit 106.1, lit 106.1]"
    "snd (read_timing ?w (path ?w (?argv ! 4))) = Inr [lit 106.1, lit 106.1]"
    by (simp_all add: ex_reads ex_path)
  have z: "zip (fastest [100, 100] [100, 100]) (fastest [lit 106.1, lit 106.1] [lit 106.1, lit 106.1])
             = ?ps"
    by (simp add: fastest_def py_min_def)
  note h = h0 [folded z]
  have ne: "zip (fastest [100, 100] [100, 100])
                (fastest [lit 106.1, lit 106.1] [lit 106.1, lit 106.1]) \<noteq> []"
    unfolding z by simp
  note t = fails_when_thresholds_crossed [OF l ne h]
  have nt: "snd (notify ?w a (mean_perc_str_of (fdiv (total_rel_dur a) (float_of_nat (n a))))
                   (?argv ! 5) (if 7 \<le> length ?argv then ?argv ! 6 else [])) = Inr ()"
    by (simp add: notify_snd fa)
  from t nt c(4) have 1: "snd (main ?w ?argv) = Inl AssertionError"
    by (simp add: fa)
  have 2: "snd (main ?w [''compare_perf.py'', ''base_e'', ''base_e'', ''latest_e'', ''latest_e'',
                         ''token'']) = Inr ()"
    by (simp add: ex_main_e)
  from 1 fa(2,3) c(4) 2 ex_mean_e show ?thesis
    unfolding a_def
    apply -
    apply (intro conjI)
         apply assumption+
    done
qed

end
